theory Spec2Isabelle
  imports Main "HOL-Library.AList" "HOL-Library.Word"
begin

section \<open>Go values\<close>

text \<open>
  The bridge driver's endpoint store (\<^verbatim>\<open>drivers/bridge/endpoint_store.go\<close>) is
  modelled in two layers. The codec and the restore protocol only read and build whole
  values, so they work on records of values. \<^verbatim>\<open>CopyTo\<close> is about which storage two
  records share, so it works on an explicit heap of objects and backing arrays
  (section \<open>The heap\<close>).

  A Go slice is \<^verbatim>\<open>nil\<close> or a sequence of elements: \<open>None\<close> is the nil slice,
  \<open>Some []\<close> an empty slice that is not nil (\<^verbatim>\<open>reflect.DeepEqual\<close> tells them apart).
\<close>

type_synonym byte = "8 word"

type_synonym 'a slice = "'a list option"

definition len :: "'a slice \<Rightarrow> nat" where
  "len s = (case s of None \<Rightarrow> 0 | Some xs \<Rightarrow> length xs)"

text \<open>\<^verbatim>\<open>for _, x := range s\<close> visits the elements of \<open>s\<close>; a nil slice has none.\<close>

definition elems :: "'a slice \<Rightarrow> 'a list" where
  "elems s = (case s of None \<Rightarrow> [] | Some xs \<Rightarrow> xs)"

text \<open>\<^verbatim>\<open>append(s, x)\<close>: the result is never nil.\<close>

definition append_slice :: "'a slice \<Rightarrow> 'a \<Rightarrow> 'a slice" where
  "append_slice s x = Some (elems s @ [x])"

text \<open>
  A JSON document. \<^verbatim>\<open>[]byte\<close> values that hold JSON text are represented by the
  document the library's parser reads from them, \<open>None\<close> standing for bytes that the
  parser refuses (they are not JSON text): the text format itself belongs to
  \<^verbatim>\<open>encoding/json\<close>. A number keeps its literal, and is a \<open>JNumber\<close> when the literal is
  in the range of \<^verbatim>\<open>float64\<close> (\<^verbatim>\<open>strconv.ParseFloat\<close> accepts it) and a
  \<open>JNumberOutOfRange\<close> when it is not (\<^verbatim>\<open>1e999\<close>). The members of an object are kept
  in the order of the text, a repeated key included.
\<close>

datatype json =
    JNull
  | JBool bool
  | JNumber string
  | JNumberOutOfRange string
  | JString string
  | JArray "json list"
  | JObject "(string \<times> json) list"

type_synonym bytes = "json option"

text \<open>
  The dynamic values an \<^verbatim>\<open>interface{}\<close> holds here: the six kinds that
  \<^verbatim>\<open>json.Unmarshal\<close> stores into an \<^verbatim>\<open>interface{}\<close> (\<^verbatim>\<open>nil\<close>, \<^verbatim>\<open>bool\<close>,
  \<^verbatim>\<open>float64\<close>, \<^verbatim>\<open>string\<close>, \<^verbatim>\<open>[]interface{}\<close>, \<^verbatim>\<open>map[string]interface{}\<close>) and the
  \<^verbatim>\<open>[]string\<close> that the encoders store. A \<^verbatim>\<open>map[string]interface{}\<close> is an association
  list with one entry per key.
\<close>

datatype goval =
    GoNil
  | GoBool bool
  | GoFloat64 string
  | GoString string
  | GoSlice "goval list"
  | GoMap "(string \<times> goval) list"
  | GoStrings "string slice"

type_synonym gomap = "(string \<times> goval) list"

text \<open>\<^verbatim>\<open>m[k]\<close> is the zero value, a nil interface, when the key is absent.\<close>

definition lookup :: "gomap \<Rightarrow> string \<Rightarrow> goval" where
  "lookup m k = (case map_of m k of None \<Rightarrow> GoNil | Some v \<Rightarrow> v)"

text \<open>\<^verbatim>\<open>_, ok := m[k]\<close>.\<close>

definition has_key :: "(string \<times> 'v) list \<Rightarrow> string \<Rightarrow> bool" where
  "has_key m k = (map_of m k \<noteq> None)"

text \<open>
  The unchecked type assertions \<^verbatim>\<open>v.(string)\<close> and \<^verbatim>\<open>v.([]string)\<close>: \<open>None\<close> is the
  run-time panic of an assertion on a value of another dynamic type (a nil interface
  included).
\<close>

definition assert_string :: "goval \<Rightarrow> string option" where
  "assert_string v = (case v of GoString s \<Rightarrow> Some s | _ \<Rightarrow> None)"

definition assert_strings :: "goval \<Rightarrow> string slice option" where
  "assert_strings v = (case v of GoStrings ss \<Rightarrow> Some ss | _ \<Rightarrow> None)"

section \<open>Errors and results\<close>

text \<open>
  \<^verbatim>\<open>types.InternalErrorf(format, args...)\<close> is kept as its format and its arguments.
  \<open>SyntaxError\<close> and \<open>UnmarshalTypeError\<close> are the errors of \<^verbatim>\<open>json.Unmarshal\<close>,
  \<open>ParseError\<close> is an error of one of the parsers for addresses and ports, and
  \<open>StoreError\<close> an error of the store other than \<^verbatim>\<open>datastore.ErrKeyNotFound\<close>.
\<close>

datatype error =
    SyntaxError
  | UnmarshalTypeError
  | MarshalerError error
  | ParseError string
  | InternalErrorf string "arg list"
  | ErrKeyNotFound
  | StoreError string
and arg =
    ArgString string
  | ArgValue goval
  | ArgError error

text \<open>
  What a call that mutates its receiver \<open>'s\<close> does: it panics, it returns an error
  (with the receiver as it was left), or it returns \<^verbatim>\<open>nil\<close>.
\<close>

datatype 's result =
    Panic
  | Err error 's
  | Ok 's

text \<open>Statements in sequence: the first panic or returned error ends the function.\<close>

fun run :: "('s \<Rightarrow> 's result) list \<Rightarrow> 's \<Rightarrow> 's result" where
  "run [] s = Ok s"
| "run (f # fs) s = (case f s of Ok s' \<Rightarrow> run fs s' | Err e s' \<Rightarrow> Err e s' | Panic \<Rightarrow> Panic)"

section \<open>The JSON library\<close>

text \<open>
  The document holds, at any depth, a number literal out of the range of \<^verbatim>\<open>float64\<close>.
  \<^verbatim>\<open>json.Unmarshal\<close> into an \<^verbatim>\<open>interface{}\<close> cannot convert such a literal: it
  stores nil in its place, goes on, and returns an \<^verbatim>\<open>UnmarshalTypeError\<close> in the end.
\<close>

fun overflows :: "json \<Rightarrow> bool"
  and overflows_list :: "json list \<Rightarrow> bool"
  and overflows_members :: "(string \<times> json) list \<Rightarrow> bool" where
  "overflows JNull = False"
| "overflows (JBool b) = False"
| "overflows (JNumber n) = False"
| "overflows (JNumberOutOfRange n) = True"
| "overflows (JString s) = False"
| "overflows (JArray xs) = overflows_list xs"
| "overflows (JObject kvs) = overflows_members kvs"
| "overflows_list [] = False"
| "overflows_list (x # xs) = (overflows x \<or> overflows_list xs)"
| "overflows_members [] = False"
| "overflows_members (kv # kvs) = (overflows (snd kv) \<or> overflows_members kvs)"

text \<open>
  The value that \<^verbatim>\<open>json.Unmarshal\<close> stores into an \<^verbatim>\<open>interface{}\<close>: an array becomes
  a \<^verbatim>\<open>[]interface{}\<close>, never a \<^verbatim>\<open>[]string\<close>; of a repeated key the last member
  stays; a number out of range leaves nil (and makes the call return an error, see
  \<open>json_Unmarshal_map\<close>).
\<close>

fun decode :: "json \<Rightarrow> goval"
  and decode_members :: "(string \<times> json) list \<Rightarrow> gomap \<Rightarrow> gomap" where
  "decode JNull = GoNil"
| "decode (JBool b) = GoBool b"
| "decode (JNumber n) = GoFloat64 n"
| "decode (JNumberOutOfRange n) = GoNil"
| "decode (JString s) = GoString s"
| "decode (JArray xs) = GoSlice (map decode xs)"
| "decode (JObject kvs) = GoMap (decode_members kvs [])"
| "decode_members [] m = m"
| "decode_members (kv # kvs) m = decode_members kvs (AList.update (fst kv) (decode (snd kv)) m)"

text \<open>
  \<^verbatim>\<open>json.Unmarshal(b, &m)\<close> for a nil \<^verbatim>\<open>m map[string]interface{}\<close>: \<^verbatim>\<open>null\<close> leaves
  the map nil (reading a nil map finds no key), any other document that is not an object
  is a type error, and so is an object that holds a number out of the range of
  \<^verbatim>\<open>float64\<close>. The callers in this file return on every error, so the map that comes
  with an error is not kept.
\<close>

definition json_Unmarshal_map :: "bytes \<Rightarrow> error + gomap" where
  "json_Unmarshal_map b =
     (case b of
        None \<Rightarrow> Inl SyntaxError
      | Some JNull \<Rightarrow> Inr []
      | Some (JObject kvs) \<Rightarrow>
          if overflows_members kvs then Inl UnmarshalTypeError
          else Inr (decode_members kvs [])
      | Some _ \<Rightarrow> Inl UnmarshalTypeError)"

text \<open>
  \<^verbatim>\<open>json.Unmarshal(b, &p)\<close> for a nil pointer \<open>p\<close> to a type with an
  \<^verbatim>\<open>UnmarshalJSON\<close> method \<open>unm\<close>: \<^verbatim>\<open>null\<close> sets the pointer to nil without
  calling the method; every other document allocates the zero value \<open>z\<close> and calls the
  method on it with the document's bytes. A panic in the method is a run-time error,
  which the library does not recover.
\<close>

definition json_Unmarshal_ptr :: "('a \<Rightarrow> bytes \<Rightarrow> 'a result) \<Rightarrow> 'a \<Rightarrow> bytes \<Rightarrow> 'a option result" where
  "json_Unmarshal_ptr unm z b =
     (case b of
        None \<Rightarrow> Err SyntaxError None
      | Some JNull \<Rightarrow> Ok None
      | Some j \<Rightarrow>
          (case unm z (Some j) of
             Panic \<Rightarrow> Panic
           | Err e x \<Rightarrow> Err e (Some x)
           | Ok x \<Rightarrow> Ok (Some x)))"

text \<open>
  \<^verbatim>\<open>json.Marshal\<close> of a dynamic value. None of the values of \<open>goval\<close> is one the
  library refuses, so the call returns no error; the callers keep their error branch.
  A nil \<^verbatim>\<open>[]string\<close> is written \<^verbatim>\<open>null\<close>. The library writes the members of a map
  sorted by key; the model keeps the order of the association list, which no reader of
  an object depends on.
\<close>

fun encode :: "goval \<Rightarrow> json"
  and encode_members :: "gomap \<Rightarrow> (string \<times> json) list" where
  "encode GoNil = JNull"
| "encode (GoBool b) = JBool b"
| "encode (GoFloat64 n) = JNumber n"
| "encode (GoString s) = JString s"
| "encode (GoSlice xs) = JArray (map encode xs)"
| "encode (GoMap kvs) = JObject (encode_members kvs)"
| "encode (GoStrings ss) = (case ss of None \<Rightarrow> JNull | Some xs \<Rightarrow> JArray (map JString xs))"
| "encode_members [] = []"
| "encode_members (kv # kvs) = (fst kv, encode (snd kv)) # encode_members kvs"

definition json_Marshal :: "goval \<Rightarrow> error + bytes" where
  "json_Marshal v = Inr (Some (encode v))"

section \<open>The data model\<close>

text \<open>
  \<^verbatim>\<open>net.IPNet\<close> and \<^verbatim>\<open>net.HardwareAddr\<close> (a \<^verbatim>\<open>[]byte\<close>) are the standard library's.
  \<^verbatim>\<open>types.PortBinding\<close> and \<^verbatim>\<open>types.TransportPort\<close> are declared in the package
  \<^verbatim>\<open>types\<close>, outside this file: they are the type parameters \<open>'pb\<close> and \<open>'tp\<close>. The
  structs \<^verbatim>\<open>bridgeEndpoint\<close>, \<^verbatim>\<open>endpointConfiguration\<close>, \<^verbatim>\<open>containerConfiguration\<close>
  and \<^verbatim>\<open>bridgeNetwork\<close> are declared in the driver; their fields are the ones this
  file reads and writes. A pointer field is an \<open>option\<close>, \<open>None\<close> the nil pointer.
\<close>

record IPNet =
  IP :: "byte slice"
  Mask :: "byte slice"

record ('pb, 'tp) endpointConfiguration =
  MacAddress :: "byte slice"
  PortBindings :: "'pb slice"
  ExposedPorts :: "'tp slice"

record containerConfiguration =
  ParentEndpoints :: "string slice"
  ChildEndpoints :: "string slice"

text \<open>The back-reference \<^verbatim>\<open>network *bridgeNetwork\<close> is a pointer into the networks.\<close>

type_synonym netptr = nat

record ('pb, 'tp) bridgeEndpoint =
  ep_id :: string
  srcName :: string
  addr :: "IPNet option"
  addrv6 :: "IPNet option"
  macAddress :: "byte slice"
  config :: "('pb, 'tp) endpointConfiguration option"
  containerConfig :: "containerConfiguration option"
  portMapping :: "'pb slice"
  network :: "netptr option"
  dbIndex :: "64 word"
  dbExists :: bool

text \<open>
  The functions of \<^verbatim>\<open>net\<close> and \<^verbatim>\<open>types\<close> that the codec calls are parameters: the
  parsers return the parsed value or their error, and on an error the value they return
  is nil.
\<close>

record ('pb, 'tp) lib =
  ParseCIDR :: "string \<Rightarrow> error + IPNet"
  IPNet_String :: "IPNet \<Rightarrow> string"
  ParseMAC :: "string \<Rightarrow> error + byte list"
  HardwareAddr_String :: "byte list \<Rightarrow> string"
  PortBinding_FromString :: "string \<Rightarrow> error + 'pb"
  PortBinding_String :: "'pb \<Rightarrow> string"
  TransportPort_FromString :: "string \<Rightarrow> error + 'tp"
  TransportPort_String :: "'tp \<Rightarrow> string"

section \<open>Encoding\<close>

text \<open>
  \<^verbatim>\<open>for _, x := range xs { strs = append(strs, x.String()) }\<close>, from a nil \<open>strs\<close>.
\<close>

definition strings_of :: "('a \<Rightarrow> string) \<Rightarrow> 'a slice \<Rightarrow> string slice" where
  "strings_of str xs = fold (\<lambda>x strs. append_slice strs (str x)) (elems xs) None"

text \<open>\<^verbatim>\<open>endpointConfiguration.MarshalJSON\<close>: the map \<open>cMap\<close>, then \<^verbatim>\<open>json.Marshal\<close>.\<close>

definition ec_cMap :: "('pb, 'tp) lib \<Rightarrow> ('pb, 'tp) endpointConfiguration \<Rightarrow> gomap" where
  "ec_cMap L ec =
     (let cMap = [];
          cMap = (if len (MacAddress ec) \<noteq> 0
                  then AList.update ''MacAddress''
                         (GoString (HardwareAddr_String L (elems (MacAddress ec)))) cMap
                  else cMap);
          cMap = (if len (PortBindings ec) \<noteq> 0
                  then AList.update ''PortBindings''
                         (GoStrings (strings_of (PortBinding_String L) (PortBindings ec))) cMap
                  else cMap);
          cMap = (if len (ExposedPorts ec) \<noteq> 0
                  then AList.update ''ExposedPorts''
                         (GoStrings (strings_of (TransportPort_String L) (ExposedPorts ec))) cMap
                  else cMap)
      in cMap)"

definition ec_MarshalJSON :: "('pb, 'tp) lib \<Rightarrow> ('pb, 'tp) endpointConfiguration \<Rightarrow> error + bytes" where
  "ec_MarshalJSON L ec = json_Marshal (GoMap (ec_cMap L ec))"

text \<open>\<^verbatim>\<open>containerConfiguration.MarshalJSON\<close>.\<close>

definition cc_cMap :: "containerConfiguration \<Rightarrow> gomap" where
  "cc_cMap cf =
     (let cMap = [];
          cMap = AList.update ''ParentEndpoints'' (GoStrings (ParentEndpoints cf)) cMap;
          cMap = AList.update ''ChildEndpoints'' (GoStrings (ChildEndpoints cf)) cMap
      in cMap)"

definition cc_MarshalJSON :: "containerConfiguration \<Rightarrow> error + bytes" where
  "cc_MarshalJSON cf = json_Marshal (GoMap (cc_cMap cf))"

text \<open>
  The map \<open>nMap\<close> of \<^verbatim>\<open>bridgeEndpoint.MarshalJSON\<close> also holds the two
  sub-configuration pointers, whose types have a \<^verbatim>\<open>MarshalJSON\<close> of their own.
\<close>

datatype ('pb, 'tp) ifaceval =
    Plain goval
  | EpConfigPtr "('pb, 'tp) endpointConfiguration option"
  | CConfigPtr "containerConfiguration option"

text \<open>
  \<^verbatim>\<open>json.Marshal\<close> of such a value: a nil pointer is written \<^verbatim>\<open>null\<close> and its
  method is not called; the bytes a \<^verbatim>\<open>MarshalJSON\<close> returns must be JSON text.
\<close>

definition marshaler :: "error + bytes \<Rightarrow> error + json" where
  "marshaler r =
     (case r of
        Inl e \<Rightarrow> Inl (MarshalerError e)
      | Inr None \<Rightarrow> Inl (MarshalerError SyntaxError)
      | Inr (Some j) \<Rightarrow> Inr j)"

definition marshal_value :: "('pb, 'tp) lib \<Rightarrow> ('pb, 'tp) ifaceval \<Rightarrow> error + json" where
  "marshal_value L v =
     (case v of
        Plain g \<Rightarrow> Inr (encode g)
      | EpConfigPtr None \<Rightarrow> Inr JNull
      | EpConfigPtr (Some ec) \<Rightarrow> marshaler (ec_MarshalJSON L ec)
      | CConfigPtr None \<Rightarrow> Inr JNull
      | CConfigPtr (Some cf) \<Rightarrow> marshaler (cc_MarshalJSON cf))"

fun marshal_members ::
  "('pb, 'tp) lib \<Rightarrow> (string \<times> ('pb, 'tp) ifaceval) list \<Rightarrow> error + (string \<times> json) list" where
  "marshal_members L [] = Inr []"
| "marshal_members L (kv # kvs) =
     (case marshal_value L (snd kv) of
        Inl e \<Rightarrow> Inl e
      | Inr j \<Rightarrow>
          (case marshal_members L kvs of
             Inl e \<Rightarrow> Inl e
           | Inr js \<Rightarrow> Inr ((fst kv, j) # js)))"

definition json_Marshal_map ::
  "('pb, 'tp) lib \<Rightarrow> (string \<times> ('pb, 'tp) ifaceval) list \<Rightarrow> error + bytes" where
  "json_Marshal_map L m =
     (case marshal_members L m of Inl e \<Rightarrow> Inl e | Inr kvs \<Rightarrow> Inr (Some (JObject kvs)))"

text \<open>\<^verbatim>\<open>bridgeEndpoint.MarshalJSON\<close>: the map \<open>nMap\<close>, then \<^verbatim>\<open>json.Marshal(nMap)\<close>.\<close>

definition nMap_of ::
  "('pb, 'tp) lib \<Rightarrow> ('pb, 'tp) bridgeEndpoint \<Rightarrow> (string \<times> ('pb, 'tp) ifaceval) list" where
  "nMap_of L ep =
     (let nMap = [];
          nMap = AList.update ''id'' (Plain (GoString (ep_id ep))) nMap;
          nMap = AList.update ''srcName'' (Plain (GoString (srcName ep))) nMap;
          nMap = (case addr ep of
                    Some a \<Rightarrow> AList.update ''addr'' (Plain (GoString (IPNet_String L a))) nMap
                  | None \<Rightarrow> nMap);
          nMap = (case addrv6 ep of
                    Some a \<Rightarrow> AList.update ''addrv6'' (Plain (GoString (IPNet_String L a))) nMap
                  | None \<Rightarrow> nMap);
          nMap = (if len (macAddress ep) \<noteq> 0
                  then AList.update ''macAddress''
                         (Plain (GoString (HardwareAddr_String L (elems (macAddress ep))))) nMap
                  else nMap);
          nMap = AList.update ''config'' (EpConfigPtr (config ep)) nMap;
          nMap = AList.update ''containerConfiguration'' (CConfigPtr (containerConfig ep)) nMap;
          nMap = (if len (portMapping ep) \<noteq> 0
                  then AList.update ''portMapping''
                         (Plain (GoStrings (strings_of (PortBinding_String L) (portMapping ep)))) nMap
                  else nMap)
      in nMap)"

definition MarshalJSON :: "('pb, 'tp) lib \<Rightarrow> ('pb, 'tp) bridgeEndpoint \<Rightarrow> error + bytes" where
  "MarshalJSON L ep = json_Marshal_map L (nMap_of L ep)"

section \<open>Decoding\<close>

text \<open>
  The loops over \<^verbatim>\<open>cMap["PortBindings"].([]string)\<close>, \<^verbatim>\<open>cMap["ExposedPorts"].([]string)\<close>
  and \<^verbatim>\<open>nMap["portMapping"].([]string)\<close>: each string is parsed into a fresh value and
  appended to \<open>acc\<close>; the first string that does not parse ends the loop with that
  string and the parser's error.
\<close>

fun parse_all :: "(string \<Rightarrow> error + 'a) \<Rightarrow> string list \<Rightarrow> 'a slice \<Rightarrow> (string \<times> error) + 'a slice" where
  "parse_all parse [] acc = Inr acc"
| "parse_all parse (str # strs) acc =
     (case parse str of
        Inl e \<Rightarrow> Inl (str, e)
      | Inr x \<Rightarrow> parse_all parse strs (append_slice acc x))"

text \<open>\<^verbatim>\<open>endpointConfiguration.UnmarshalJSON\<close>, statement by statement.\<close>

definition ec_decode_MacAddress ::
  "('pb, 'tp) lib \<Rightarrow> gomap \<Rightarrow> ('pb, 'tp) endpointConfiguration \<Rightarrow> ('pb, 'tp) endpointConfiguration result" where
  "ec_decode_MacAddress L cMap ec =
     (if has_key cMap ''MacAddress'' then
        (case assert_string (lookup cMap ''MacAddress'') of
           None \<Rightarrow> Panic
         | Some s \<Rightarrow>
             (case ParseMAC L s of
                Inl e \<Rightarrow>
                  Err (InternalErrorf
                        ''failed to decode bridge endpoint configuration mac address after json unmarshal %s: %v''
                        [ArgString s, ArgError e])
                      (ec\<lparr>MacAddress := None\<rparr>)
              | Inr m \<Rightarrow> Ok (ec\<lparr>MacAddress := Some m\<rparr>)))
      else Ok ec)"

definition ec_decode_PortBindings ::
  "('pb, 'tp) lib \<Rightarrow> gomap \<Rightarrow> ('pb, 'tp) endpointConfiguration \<Rightarrow> ('pb, 'tp) endpointConfiguration result" where
  "ec_decode_PortBindings L cMap ec =
     (if has_key cMap ''PortBindings'' then
        (case assert_strings (lookup cMap ''PortBindings'') of
           None \<Rightarrow> Panic
         | Some strs \<Rightarrow>
             (case parse_all (PortBinding_FromString L) (elems strs) None of
                Inl (str, e) \<Rightarrow>
                  Err (InternalErrorf
                        ''failed to decode bridge endpoint configuration port binding after json unmarshal %s: %v''
                        [ArgString str, ArgError e])
                      ec
              | Inr pms \<Rightarrow> Ok (ec\<lparr>PortBindings := pms\<rparr>)))
      else Ok (ec\<lparr>PortBindings := None\<rparr>))"

definition ec_decode_ExposedPorts ::
  "('pb, 'tp) lib \<Rightarrow> gomap \<Rightarrow> ('pb, 'tp) endpointConfiguration \<Rightarrow> ('pb, 'tp) endpointConfiguration result" where
  "ec_decode_ExposedPorts L cMap ec =
     (if has_key cMap ''ExposedPorts'' then
        (case assert_strings (lookup cMap ''ExposedPorts'') of
           None \<Rightarrow> Panic
         | Some strs \<Rightarrow>
             (case parse_all (TransportPort_FromString L) (elems strs) None of
                Inl (str, e) \<Rightarrow>
                  Err (InternalErrorf
                        ''failed to decode bridge endpoint configuration exposed port after json unmarshal %s: %v''
                        [ArgString str, ArgError e])
                      ec
              | Inr eps \<Rightarrow> Ok (ec\<lparr>ExposedPorts := eps\<rparr>)))
      else Ok (ec\<lparr>ExposedPorts := None\<rparr>))"

definition ec_UnmarshalJSON ::
  "('pb, 'tp) lib \<Rightarrow> ('pb, 'tp) endpointConfiguration \<Rightarrow> bytes \<Rightarrow> ('pb, 'tp) endpointConfiguration result" where
  "ec_UnmarshalJSON L ec b =
     (case json_Unmarshal_map b of
        Inl e \<Rightarrow> Err e ec
      | Inr cMap \<Rightarrow>
          run [ec_decode_MacAddress L cMap,
               ec_decode_PortBindings L cMap,
               ec_decode_ExposedPorts L cMap] ec)"

text \<open>\<^verbatim>\<open>containerConfiguration.UnmarshalJSON\<close>.\<close>

definition cc_decode_ParentEndpoints :: "gomap \<Rightarrow> containerConfiguration \<Rightarrow> containerConfiguration result" where
  "cc_decode_ParentEndpoints cMap cf =
     (case assert_strings (lookup cMap ''ParentEndpoints'') of
        None \<Rightarrow> Panic
      | Some ss \<Rightarrow> Ok (cf\<lparr>ParentEndpoints := ss\<rparr>))"

definition cc_decode_ChildEndpoints :: "gomap \<Rightarrow> containerConfiguration \<Rightarrow> containerConfiguration result" where
  "cc_decode_ChildEndpoints cMap cf =
     (case assert_strings (lookup cMap ''ChildEndpoints'') of
        None \<Rightarrow> Panic
      | Some ss \<Rightarrow> Ok (cf\<lparr>ChildEndpoints := ss\<rparr>))"

definition cc_UnmarshalJSON :: "containerConfiguration \<Rightarrow> bytes \<Rightarrow> containerConfiguration result" where
  "cc_UnmarshalJSON cf b =
     (case json_Unmarshal_map b of
        Inl e \<Rightarrow> Err e cf
      | Inr cMap \<Rightarrow> run [cc_decode_ParentEndpoints cMap, cc_decode_ChildEndpoints cMap] cf)"

text \<open>
  \<^verbatim>\<open>bridgeEndpoint.UnmarshalJSON\<close>, statement by statement. The required keys are
  read with an unchecked assertion; an optional key is looked up first, and its value
  then read with an unchecked assertion.
\<close>

definition decode_id :: "gomap \<Rightarrow> ('pb, 'tp) bridgeEndpoint \<Rightarrow> ('pb, 'tp) bridgeEndpoint result" where
  "decode_id nMap ep =
     (case assert_string (lookup nMap ''id'') of
        None \<Rightarrow> Panic
      | Some s \<Rightarrow> Ok (ep\<lparr>ep_id := s\<rparr>))"

definition decode_srcName :: "gomap \<Rightarrow> ('pb, 'tp) bridgeEndpoint \<Rightarrow> ('pb, 'tp) bridgeEndpoint result" where
  "decode_srcName nMap ep =
     (case assert_string (lookup nMap ''srcName'') of
        None \<Rightarrow> Panic
      | Some s \<Rightarrow> Ok (ep\<lparr>srcName := s\<rparr>))"

definition decode_addr ::
  "('pb, 'tp) lib \<Rightarrow> gomap \<Rightarrow> ('pb, 'tp) bridgeEndpoint \<Rightarrow> ('pb, 'tp) bridgeEndpoint result" where
  "decode_addr L nMap ep =
     (if has_key nMap ''addr'' then
        (case assert_string (lookup nMap ''addr'') of
           None \<Rightarrow> Panic
         | Some s \<Rightarrow>
             (case ParseCIDR L s of
                Inl e \<Rightarrow>
                  Err (InternalErrorf
                        ''failed to decode bridge endpoint address IPv4 after json unmarshal: %s''
                        [ArgString s])
                      (ep\<lparr>addr := None\<rparr>)
              | Inr n \<Rightarrow> Ok (ep\<lparr>addr := Some n\<rparr>)))
      else Ok ep)"

definition decode_addrv6 ::
  "('pb, 'tp) lib \<Rightarrow> gomap \<Rightarrow> ('pb, 'tp) bridgeEndpoint \<Rightarrow> ('pb, 'tp) bridgeEndpoint result" where
  "decode_addrv6 L nMap ep =
     (if has_key nMap ''addrv6'' then
        (case assert_string (lookup nMap ''addrv6'') of
           None \<Rightarrow> Panic
         | Some s \<Rightarrow>
             (case ParseCIDR L s of
                Inl e \<Rightarrow>
                  Err (InternalErrorf
                        ''failed to decode bridge endpoint address IPv6 after json unmarshal: %s''
                        [ArgString s])
                      (ep\<lparr>addrv6 := None\<rparr>)
              | Inr n \<Rightarrow> Ok (ep\<lparr>addrv6 := Some n\<rparr>)))
      else Ok ep)"

definition decode_macAddress ::
  "('pb, 'tp) lib \<Rightarrow> gomap \<Rightarrow> ('pb, 'tp) bridgeEndpoint \<Rightarrow> ('pb, 'tp) bridgeEndpoint result" where
  "decode_macAddress L nMap ep =
     (if has_key nMap ''macAddress'' then
        (case assert_string (lookup nMap ''macAddress'') of
           None \<Rightarrow> Panic
         | Some s \<Rightarrow>
             (case ParseMAC L s of
                Inl e \<Rightarrow>
                  Err (InternalErrorf
                        ''failed to decode bridge endpoint mac address after json unmarshal: %s''
                        [ArgString s])
                      (ep\<lparr>macAddress := None\<rparr>)
              | Inr m \<Rightarrow> Ok (ep\<lparr>macAddress := Some m\<rparr>)))
      else Ok ep)"

text \<open>The zero values that \<^verbatim>\<open>json.Unmarshal\<close> allocates for a nil pointer.\<close>

definition ec_zero :: "('pb, 'tp) endpointConfiguration" where
  "ec_zero = \<lparr>MacAddress = None, PortBindings = None, ExposedPorts = None\<rparr>"

definition cc_zero :: "containerConfiguration" where
  "cc_zero = \<lparr>ParentEndpoints = None, ChildEndpoints = None\<rparr>"

text \<open>
  \<^verbatim>\<open>nMap["config"]\<close> is encoded again and the bytes decoded into the nil pointer
  \<open>cfg\<close>; \<^verbatim>\<open>ep.config = cfg\<close> is reached only without an error.
\<close>

definition decode_config ::
  "('pb, 'tp) lib \<Rightarrow> gomap \<Rightarrow> ('pb, 'tp) bridgeEndpoint \<Rightarrow> ('pb, 'tp) bridgeEndpoint result" where
  "decode_config L nMap ep =
     (case json_Marshal (lookup nMap ''config'') of
        Inl e \<Rightarrow>
          Err (InternalErrorf
                ''failed to decode bridge endpoint config after json unmarshal %v: %v''
                [ArgValue (lookup nMap ''config''), ArgError e])
              ep
      | Inr configData \<Rightarrow>
          (case json_Unmarshal_ptr (ec_UnmarshalJSON L) ec_zero configData of
             Panic \<Rightarrow> Panic
           | Err e cfg \<Rightarrow>
               Err (InternalErrorf
                     ''failed to decode bridge endpoint config after json unmarshal %v: %v''
                     [ArgValue (lookup nMap ''config''), ArgError e])
                   ep
           | Ok cfg \<Rightarrow> Ok (ep\<lparr>config := cfg\<rparr>)))"

definition decode_containerConfig ::
  "gomap \<Rightarrow> ('pb, 'tp) bridgeEndpoint \<Rightarrow> ('pb, 'tp) bridgeEndpoint result" where
  "decode_containerConfig nMap ep =
     (case json_Marshal (lookup nMap ''containerConfiguration'') of
        Inl e \<Rightarrow>
          Err (InternalErrorf
                ''failed to decode bridge endpoint container configuration after json unmarshal %v: %v''
                [ArgValue (lookup nMap ''containerConfiguration''), ArgError e])
              ep
      | Inr containerConfigData \<Rightarrow>
          (case json_Unmarshal_ptr cc_UnmarshalJSON cc_zero containerConfigData of
             Panic \<Rightarrow> Panic
           | Err e ccfg \<Rightarrow>
               Err (InternalErrorf
                     ''failed to decode bridge endpoint container configuration after json unmarshal %v: %v''
                     [ArgValue (lookup nMap ''containerConfiguration''), ArgError e])
                   ep
           | Ok ccfg \<Rightarrow> Ok (ep\<lparr>containerConfig := ccfg\<rparr>)))"

definition decode_portMapping ::
  "('pb, 'tp) lib \<Rightarrow> gomap \<Rightarrow> ('pb, 'tp) bridgeEndpoint \<Rightarrow> ('pb, 'tp) bridgeEndpoint result" where
  "decode_portMapping L nMap ep =
     (if has_key nMap ''portMapping'' then
        (case assert_strings (lookup nMap ''portMapping'') of
           None \<Rightarrow> Panic
         | Some strs \<Rightarrow>
             (case parse_all (PortBinding_FromString L) (elems strs) None of
                Inl (str, e) \<Rightarrow>
                  Err (InternalErrorf
                        ''failed to decode bridge endpoint port mapping after json unmarshal: %s''
                        [ArgString str])
                      ep
              | Inr pms \<Rightarrow> Ok (ep\<lparr>portMapping := pms\<rparr>)))
      else Ok (ep\<lparr>portMapping := None\<rparr>))"

definition UnmarshalJSON ::
  "('pb, 'tp) lib \<Rightarrow> ('pb, 'tp) bridgeEndpoint \<Rightarrow> bytes \<Rightarrow> ('pb, 'tp) bridgeEndpoint result" where
  "UnmarshalJSON L ep b =
     (case json_Unmarshal_map b of
        Inl e \<Rightarrow> Err e ep
      | Inr nMap \<Rightarrow>
          run [decode_id nMap,
               decode_srcName nMap,
               decode_addr L nMap,
               decode_addrv6 L nMap,
               decode_macAddress L nMap,
               decode_config L nMap,
               decode_containerConfig nMap,
               decode_portMapping L nMap] ep)"

section \<open>Keys and the restore protocol\<close>

text \<open>
  A network holds its identifier and its endpoint table, a Go map from endpoint
  identifiers to endpoints (\<open>None\<close>: the nil map, which panics on assignment). The
  networks live at their pointers.
\<close>

record ('pb, 'tp) bridgeNetwork =
  net_id :: string
  endpoints :: "(string \<rightharpoonup> ('pb, 'tp) bridgeEndpoint) option"

type_synonym ('pb, 'tp) networks = "netptr \<Rightarrow> ('pb, 'tp) bridgeNetwork"

text \<open>The value of a call that mutates nothing: a panic or the value returned.\<close>

datatype 'a outcome = Panics | Returns 'a

definition bridgeEndpointPrefix :: string where
  "bridgeEndpointPrefix = ''bridge_endpoint''"

text \<open>\<^verbatim>\<open>ep.network.id\<close> dereferences the back-reference.\<close>

definition Key :: "('pb, 'tp) networks \<Rightarrow> ('pb, 'tp) bridgeEndpoint \<Rightarrow> string list outcome" where
  "Key ns ep =
     (case network ep of
        None \<Rightarrow> Panics
      | Some n \<Rightarrow> Returns [bridgeEndpointPrefix, net_id (ns n), ep_id ep])"

definition KeyPrefix :: "('pb, 'tp) networks \<Rightarrow> ('pb, 'tp) bridgeEndpoint \<Rightarrow> string list outcome" where
  "KeyPrefix ns ep =
     (case network ep of
        None \<Rightarrow> Panics
      | Some n \<Rightarrow> Returns [bridgeEndpointPrefix, net_id (ns n)])"

text \<open>
  The store is the package \<^verbatim>\<open>datastore\<close>, outside this file: \<^verbatim>\<open>datastore.Key\<close> and
  the store's \<^verbatim>\<open>List(key, prototype)\<close> are parameters. \<^verbatim>\<open>List\<close> returns objects of
  the interface \<^verbatim>\<open>datastore.KVObject\<close> and an error, nil or not.
\<close>

datatype ('pb, 'tp) kvobject =
    KVBridgeEndpoint "('pb, 'tp) bridgeEndpoint"
  | KVOther

record ('pb, 'tp) datastore =
  datastore_Key :: "string list \<Rightarrow> string"
  store_List :: "string \<Rightarrow> ('pb, 'tp) bridgeEndpoint \<Rightarrow> ('pb, 'tp) kvobject list \<times> error option"

text \<open>The zero value of \<^verbatim>\<open>bridgeEndpoint\<close> with its network set: \<^verbatim>\<open>bridgeEndpoint{network: n}\<close>.\<close>

definition ep_zero :: "netptr option \<Rightarrow> ('pb, 'tp) bridgeEndpoint" where
  "ep_zero n =
     \<lparr>ep_id = [], srcName = [], addr = None, addrv6 = None, macAddress = None, config = None,
      containerConfig = None, portMapping = None, network = n, dbIndex = 0, dbExists = False\<rparr>"

text \<open>\<^verbatim>\<open>kvo.(*bridgeEndpoint)\<close> for each object listed, appended to \<open>epl\<close>.\<close>

fun assert_endpoints ::
  "('pb, 'tp) kvobject list \<Rightarrow> ('pb, 'tp) bridgeEndpoint slice \<Rightarrow> ('pb, 'tp) bridgeEndpoint slice outcome" where
  "assert_endpoints [] epl = Returns epl"
| "assert_endpoints (KVBridgeEndpoint ep # kvol) epl = assert_endpoints kvol (append_slice epl ep)"
| "assert_endpoints (KVOther # kvol) epl = Panics"

definition getEndpointsFromStore ::
  "('pb, 'tp) datastore \<Rightarrow> ('pb, 'tp) networks \<Rightarrow> netptr \<Rightarrow>
   (('pb, 'tp) bridgeEndpoint slice \<times> error option) outcome" where
  "getEndpointsFromStore S ns n =
     (let epl = None;
          tmp = ep_zero (Some n)
      in case KeyPrefix ns tmp of
           Panics \<Rightarrow> Panics
         | Returns prefix \<Rightarrow>
             (case store_List S (datastore_Key S prefix) (ep_zero (Some n)) of
                (kvol, err) \<Rightarrow>
                  if err \<noteq> None \<and> err \<noteq> Some ErrKeyNotFound then Returns (epl, err)
                  else (case assert_endpoints kvol epl of
                          Panics \<Rightarrow> Panics
                        | Returns epl' \<Rightarrow> Returns (epl', None))))"

text \<open>
  The loop of \<^verbatim>\<open>populateEndpoints\<close>: \<^verbatim>\<open>ep.network = n\<close>, then
  \<^verbatim>\<open>n.endpoints[ep.id] = ep\<close>.
\<close>

fun insert_endpoints ::
  "('pb, 'tp) bridgeEndpoint list \<Rightarrow> netptr \<Rightarrow> ('pb, 'tp) networks \<Rightarrow> ('pb, 'tp) networks outcome" where
  "insert_endpoints [] n ns = Returns ns"
| "insert_endpoints (ep # eps) n ns =
     (let ep' = ep\<lparr>network := Some n\<rparr>
      in case endpoints (ns n) of
           None \<Rightarrow> Panics
         | Some table \<Rightarrow>
             insert_endpoints eps n
               (ns(n := (ns n)\<lparr>endpoints := Some (table(ep_id ep' \<mapsto> ep'))\<rparr>)))"

definition populateEndpoints ::
  "('pb, 'tp) datastore \<Rightarrow> ('pb, 'tp) networks \<Rightarrow> netptr \<Rightarrow>
   (error option \<times> ('pb, 'tp) networks) outcome" where
  "populateEndpoints S ns n =
     (case getEndpointsFromStore S ns n of
        Panics \<Rightarrow> Panics
      | Returns (eps, err) \<Rightarrow>
          if err \<noteq> None then Returns (err, ns)
          else (case insert_endpoints (elems eps) n ns of
                  Panics \<Rightarrow> Panics
                | Returns ns' \<Rightarrow> Returns (None, ns')))"

section \<open>The heap\<close>

text \<open>
  \<^verbatim>\<open>CopyTo\<close> is modelled on a heap. Go is type-safe, so the heap is split by type:
  one store for each kind of backing array (\<^verbatim>\<open>[]byte\<close>, \<^verbatim>\<open>[]string\<close>,
  \<^verbatim>\<open>[]types.PortBinding\<close>, \<^verbatim>\<open>[]types.TransportPort\<close>) and one for each kind of struct
  reached through a pointer. A pointer is a reference or nil; a slice is nil or the
  reference of its backing array, of which it spans all elements. \<open>next_ref\<close> is the
  next reference the allocator hands out. An element of a port-mapping array is a value
  of \<open>'pb\<close>: what such an element may itself refer to is outside this model.
\<close>

type_synonym ref = nat

record IPNet_obj =
  o_IP :: "ref option"
  o_Mask :: "ref option"

record epc_obj =
  o_MacAddress :: "ref option"
  o_PortBindings :: "ref option"
  o_ExposedPorts :: "ref option"

record cc_obj =
  o_ParentEndpoints :: "ref option"
  o_ChildEndpoints :: "ref option"

record ep_obj =
  o_id :: string
  o_srcName :: string
  o_addr :: "ref option"
  o_addrv6 :: "ref option"
  o_macAddress :: "ref option"
  o_config :: "ref option"
  o_containerConfig :: "ref option"
  o_portMapping :: "ref option"
  o_network :: "netptr option"
  o_dbIndex :: "64 word"
  o_dbExists :: bool

record ('pb, 'tp) heap =
  byte_arrays :: "ref \<Rightarrow> byte list"
  string_arrays :: "ref \<Rightarrow> string list"
  pb_arrays :: "ref \<Rightarrow> 'pb list"
  tp_arrays :: "ref \<Rightarrow> 'tp list"
  ipnet_objs :: "ref \<Rightarrow> IPNet_obj"
  epc_objs :: "ref \<Rightarrow> epc_obj"
  cc_objs :: "ref \<Rightarrow> cc_obj"
  ep_objs :: "ref \<Rightarrow> ep_obj"
  next_ref :: ref

text \<open>Allocation: a new array or object at the next reference.\<close>

definition new_bytes :: "byte list \<Rightarrow> ('pb, 'tp) heap \<Rightarrow> ref \<times> ('pb, 'tp) heap" where
  "new_bytes xs h =
     (next_ref h, h\<lparr>byte_arrays := (byte_arrays h)(next_ref h := xs), next_ref := Suc (next_ref h)\<rparr>)"

definition new_strings :: "string list \<Rightarrow> ('pb, 'tp) heap \<Rightarrow> ref \<times> ('pb, 'tp) heap" where
  "new_strings xs h =
     (next_ref h, h\<lparr>string_arrays := (string_arrays h)(next_ref h := xs), next_ref := Suc (next_ref h)\<rparr>)"

definition new_pbs :: "'pb list \<Rightarrow> ('pb, 'tp) heap \<Rightarrow> ref \<times> ('pb, 'tp) heap" where
  "new_pbs xs h =
     (next_ref h, h\<lparr>pb_arrays := (pb_arrays h)(next_ref h := xs), next_ref := Suc (next_ref h)\<rparr>)"

definition new_tps :: "'tp list \<Rightarrow> ('pb, 'tp) heap \<Rightarrow> ref \<times> ('pb, 'tp) heap" where
  "new_tps xs h =
     (next_ref h, h\<lparr>tp_arrays := (tp_arrays h)(next_ref h := xs), next_ref := Suc (next_ref h)\<rparr>)"

definition new_ipnet :: "IPNet_obj \<Rightarrow> ('pb, 'tp) heap \<Rightarrow> ref \<times> ('pb, 'tp) heap" where
  "new_ipnet x h =
     (next_ref h, h\<lparr>ipnet_objs := (ipnet_objs h)(next_ref h := x), next_ref := Suc (next_ref h)\<rparr>)"

definition new_epc :: "epc_obj \<Rightarrow> ('pb, 'tp) heap \<Rightarrow> ref \<times> ('pb, 'tp) heap" where
  "new_epc x h =
     (next_ref h, h\<lparr>epc_objs := (epc_objs h)(next_ref h := x), next_ref := Suc (next_ref h)\<rparr>)"

definition new_cc :: "cc_obj \<Rightarrow> ('pb, 'tp) heap \<Rightarrow> ref \<times> ('pb, 'tp) heap" where
  "new_cc x h =
     (next_ref h, h\<lparr>cc_objs := (cc_objs h)(next_ref h := x), next_ref := Suc (next_ref h)\<rparr>)"

text \<open>Assignment to the fields of the object a pointer refers to.\<close>

definition upd_ep :: "ref \<Rightarrow> (ep_obj \<Rightarrow> ep_obj) \<Rightarrow> ('pb, 'tp) heap \<Rightarrow> ('pb, 'tp) heap" where
  "upd_ep r f h = h\<lparr>ep_objs := (ep_objs h)(r := f (ep_objs h r))\<rparr>"

definition upd_epc :: "ref \<Rightarrow> (epc_obj \<Rightarrow> epc_obj) \<Rightarrow> ('pb, 'tp) heap \<Rightarrow> ('pb, 'tp) heap" where
  "upd_epc r f h = h\<lparr>epc_objs := (epc_objs h)(r := f (epc_objs h r))\<rparr>"

definition upd_cc :: "ref \<Rightarrow> (cc_obj \<Rightarrow> cc_obj) \<Rightarrow> ('pb, 'tp) heap \<Rightarrow> ('pb, 'tp) heap" where
  "upd_cc r f h = h\<lparr>cc_objs := (cc_objs h)(r := f (cc_objs h r))\<rparr>"

text \<open>\<^verbatim>\<open>len(s)\<close> of a slice on the heap, and the builtin \<^verbatim>\<open>copy(dst, src)\<close> on arrays.\<close>

definition len_at :: "(ref \<Rightarrow> 'a list) \<Rightarrow> ref option \<Rightarrow> nat" where
  "len_at arr s = (case s of None \<Rightarrow> 0 | Some r \<Rightarrow> length (arr r))"

definition elems_at :: "(ref \<Rightarrow> 'a list) \<Rightarrow> ref option \<Rightarrow> 'a list" where
  "elems_at arr s = (case s of None \<Rightarrow> [] | Some r \<Rightarrow> arr r)"

definition copy_elems :: "'a list \<Rightarrow> 'a list \<Rightarrow> 'a list" where
  "copy_elems dst src = take (length dst) src @ drop (length src) dst"

text \<open>
  Modelled from the spec: \<^verbatim>\<open>types.GetMacCopy\<close>, \<^verbatim>\<open>types.GetIPNetCopy\<close> (package
  \<^verbatim>\<open>types\<close>, outside this file), of which the spec says that they copy "via
  value-semantics duplication (never aliasing the source's underlying byte storage)":
  the copy of nil is nil, the copy of a byte slice is a new array with the same bytes,
  and the copy of an address is a new \<^verbatim>\<open>net.IPNet\<close> with copies of both byte slices.
\<close>

definition GetMacCopy :: "ref option \<Rightarrow> ('pb, 'tp) heap \<Rightarrow> ref option \<times> ('pb, 'tp) heap" where
  "GetMacCopy from h =
     (case from of
        None \<Rightarrow> (None, h)
      | Some r \<Rightarrow> (case new_bytes (byte_arrays h r) h of (r', h') \<Rightarrow> (Some r', h')))"

definition GetIPNetCopy :: "ref option \<Rightarrow> ('pb, 'tp) heap \<Rightarrow> ref option \<times> ('pb, 'tp) heap" where
  "GetIPNetCopy from h =
     (case from of
        None \<Rightarrow> (None, h)
      | Some p \<Rightarrow>
          (case GetMacCopy (o_IP (ipnet_objs h p)) h of
             (ip, h1) \<Rightarrow>
               (case GetMacCopy (o_Mask (ipnet_objs h p)) h1 of
                  (bm, h2) \<Rightarrow>
                    (case new_ipnet \<lparr>o_IP = ip, o_Mask = bm\<rparr> h2 of
                       (p', h3) \<Rightarrow> (Some p', h3)))))"

text \<open>
  The zero values of the element types, with which \<^verbatim>\<open>make\<close> fills a new array.
\<close>

record ('pb, 'tp) zeros =
  zero_pb :: 'pb
  zero_tp :: 'tp

text \<open>
  \<^verbatim>\<open>endpointConfiguration.CopyTo\<close>, from the object at \<open>epc\<close> to the one at
  \<open>dstEpc\<close>: each statement reads the heap the statement before left.
\<close>

definition epc_copy_MacAddress :: "ref \<Rightarrow> ref \<Rightarrow> ('pb, 'tp) heap \<Rightarrow> ('pb, 'tp) heap" where
  "epc_copy_MacAddress epc dstEpc h =
     (case GetMacCopy (o_MacAddress (epc_objs h epc)) h of
        (m, h') \<Rightarrow> upd_epc dstEpc (\<lambda>x. x\<lparr>o_MacAddress := m\<rparr>) h')"

definition epc_make_PortBindings :: "('pb, 'tp) zeros \<Rightarrow> ref \<Rightarrow> ref \<Rightarrow> ('pb, 'tp) heap \<Rightarrow> ('pb, 'tp) heap" where
  "epc_make_PortBindings Z epc dstEpc h =
     (case new_pbs (replicate (len_at (pb_arrays h) (o_PortBindings (epc_objs h epc))) (zero_pb Z)) h of
        (r, h') \<Rightarrow> upd_epc dstEpc (\<lambda>x. x\<lparr>o_PortBindings := Some r\<rparr>) h')"

definition epc_copy_PortBindings :: "ref \<Rightarrow> ref \<Rightarrow> ('pb, 'tp) heap \<Rightarrow> ('pb, 'tp) heap" where
  "epc_copy_PortBindings epc dstEpc h =
     (case o_PortBindings (epc_objs h dstEpc) of
        None \<Rightarrow> h
      | Some r \<Rightarrow>
          h\<lparr>pb_arrays := (pb_arrays h)
               (r := copy_elems (pb_arrays h r)
                       (elems_at (pb_arrays h) (o_PortBindings (epc_objs h epc))))\<rparr>)"

definition epc_make_ExposedPorts :: "('pb, 'tp) zeros \<Rightarrow> ref \<Rightarrow> ref \<Rightarrow> ('pb, 'tp) heap \<Rightarrow> ('pb, 'tp) heap" where
  "epc_make_ExposedPorts Z epc dstEpc h =
     (case new_tps (replicate (len_at (tp_arrays h) (o_ExposedPorts (epc_objs h epc))) (zero_tp Z)) h of
        (r, h') \<Rightarrow> upd_epc dstEpc (\<lambda>x. x\<lparr>o_ExposedPorts := Some r\<rparr>) h')"

definition epc_copy_ExposedPorts :: "ref \<Rightarrow> ref \<Rightarrow> ('pb, 'tp) heap \<Rightarrow> ('pb, 'tp) heap" where
  "epc_copy_ExposedPorts epc dstEpc h =
     (case o_ExposedPorts (epc_objs h dstEpc) of
        None \<Rightarrow> h
      | Some r \<Rightarrow>
          h\<lparr>tp_arrays := (tp_arrays h)
               (r := copy_elems (tp_arrays h r)
                       (elems_at (tp_arrays h) (o_ExposedPorts (epc_objs h epc))))\<rparr>)"

definition epc_CopyTo :: "('pb, 'tp) zeros \<Rightarrow> ref \<Rightarrow> ref \<Rightarrow> ('pb, 'tp) heap \<Rightarrow> ('pb, 'tp) heap" where
  "epc_CopyTo Z epc dstEpc h =
     fold (\<lambda>stmt. stmt)
       [epc_copy_MacAddress epc dstEpc,
        epc_make_PortBindings Z epc dstEpc,
        epc_copy_PortBindings epc dstEpc,
        epc_make_ExposedPorts Z epc dstEpc,
        epc_copy_ExposedPorts epc dstEpc] h"

text \<open>\<^verbatim>\<open>containerConfiguration.CopyTo\<close>.\<close>

definition cc_make_ParentEndpoints :: "ref \<Rightarrow> ref \<Rightarrow> ('pb, 'tp) heap \<Rightarrow> ('pb, 'tp) heap" where
  "cc_make_ParentEndpoints cc dstCc h =
     (case new_strings (replicate (len_at (string_arrays h) (o_ParentEndpoints (cc_objs h cc))) []) h of
        (r, h') \<Rightarrow> upd_cc dstCc (\<lambda>x. x\<lparr>o_ParentEndpoints := Some r\<rparr>) h')"

definition cc_copy_ParentEndpoints :: "ref \<Rightarrow> ref \<Rightarrow> ('pb, 'tp) heap \<Rightarrow> ('pb, 'tp) heap" where
  "cc_copy_ParentEndpoints cc dstCc h =
     (case o_ParentEndpoints (cc_objs h dstCc) of
        None \<Rightarrow> h
      | Some r \<Rightarrow>
          h\<lparr>string_arrays := (string_arrays h)
               (r := copy_elems (string_arrays h r)
                       (elems_at (string_arrays h) (o_ParentEndpoints (cc_objs h cc))))\<rparr>)"

definition cc_make_ChildEndpoints :: "ref \<Rightarrow> ref \<Rightarrow> ('pb, 'tp) heap \<Rightarrow> ('pb, 'tp) heap" where
  "cc_make_ChildEndpoints cc dstCc h =
     (case new_strings (replicate (len_at (string_arrays h) (o_ChildEndpoints (cc_objs h cc))) []) h of
        (r, h') \<Rightarrow> upd_cc dstCc (\<lambda>x. x\<lparr>o_ChildEndpoints := Some r\<rparr>) h')"

definition cc_copy_ChildEndpoints :: "ref \<Rightarrow> ref \<Rightarrow> ('pb, 'tp) heap \<Rightarrow> ('pb, 'tp) heap" where
  "cc_copy_ChildEndpoints cc dstCc h =
     (case o_ChildEndpoints (cc_objs h dstCc) of
        None \<Rightarrow> h
      | Some r \<Rightarrow>
          h\<lparr>string_arrays := (string_arrays h)
               (r := copy_elems (string_arrays h r)
                       (elems_at (string_arrays h) (o_ChildEndpoints (cc_objs h cc))))\<rparr>)"

definition cc_CopyTo :: "ref \<Rightarrow> ref \<Rightarrow> ('pb, 'tp) heap \<Rightarrow> ('pb, 'tp) heap" where
  "cc_CopyTo cc dstCc h =
     fold (\<lambda>stmt. stmt)
       [cc_make_ParentEndpoints cc dstCc,
        cc_copy_ParentEndpoints cc dstCc,
        cc_make_ChildEndpoints cc dstCc,
        cc_copy_ChildEndpoints cc dstCc] h"

text \<open>
  \<^verbatim>\<open>bridgeEndpoint.CopyTo\<close>, from the endpoint at \<open>ep\<close> to the one at \<open>dstEp\<close>. The
  two sub-configurations are assigned only under \<^verbatim>\<open>if ep.config != nil\<close> and
  \<^verbatim>\<open>if ep.containerConfig != nil\<close>; the receiver of the nested \<^verbatim>\<open>CopyTo\<close> is read
  after the assignment of the new object.
\<close>

definition copy_id :: "ref \<Rightarrow> ref \<Rightarrow> ('pb, 'tp) heap \<Rightarrow> ('pb, 'tp) heap" where
  "copy_id ep dstEp h = upd_ep dstEp (\<lambda>x. x\<lparr>o_id := o_id (ep_objs h ep)\<rparr>) h"

definition copy_srcName :: "ref \<Rightarrow> ref \<Rightarrow> ('pb, 'tp) heap \<Rightarrow> ('pb, 'tp) heap" where
  "copy_srcName ep dstEp h = upd_ep dstEp (\<lambda>x. x\<lparr>o_srcName := o_srcName (ep_objs h ep)\<rparr>) h"

definition copy_addr :: "ref \<Rightarrow> ref \<Rightarrow> ('pb, 'tp) heap \<Rightarrow> ('pb, 'tp) heap" where
  "copy_addr ep dstEp h =
     (case GetIPNetCopy (o_addr (ep_objs h ep)) h of
        (a, h') \<Rightarrow> upd_ep dstEp (\<lambda>x. x\<lparr>o_addr := a\<rparr>) h')"

definition copy_addrv6 :: "ref \<Rightarrow> ref \<Rightarrow> ('pb, 'tp) heap \<Rightarrow> ('pb, 'tp) heap" where
  "copy_addrv6 ep dstEp h =
     (case GetIPNetCopy (o_addrv6 (ep_objs h ep)) h of
        (a, h') \<Rightarrow> upd_ep dstEp (\<lambda>x. x\<lparr>o_addrv6 := a\<rparr>) h')"

definition copy_macAddress :: "ref \<Rightarrow> ref \<Rightarrow> ('pb, 'tp) heap \<Rightarrow> ('pb, 'tp) heap" where
  "copy_macAddress ep dstEp h =
     (case GetMacCopy (o_macAddress (ep_objs h ep)) h of
        (m, h') \<Rightarrow> upd_ep dstEp (\<lambda>x. x\<lparr>o_macAddress := m\<rparr>) h')"

definition copy_config :: "('pb, 'tp) zeros \<Rightarrow> ref \<Rightarrow> ref \<Rightarrow> ('pb, 'tp) heap \<Rightarrow> ('pb, 'tp) heap" where
  "copy_config Z ep dstEp h =
     (if o_config (ep_objs h ep) \<noteq> None then
        (case new_epc \<lparr>o_MacAddress = None, o_PortBindings = None, o_ExposedPorts = None\<rparr> h of
           (p, h1) \<Rightarrow>
             (let h2 = upd_ep dstEp (\<lambda>x. x\<lparr>o_config := Some p\<rparr>) h1
              in case o_config (ep_objs h2 ep) of
                   None \<Rightarrow> h2
                 | Some epc \<Rightarrow> epc_CopyTo Z epc p h2))
      else h)"

definition copy_containerConfig :: "ref \<Rightarrow> ref \<Rightarrow> ('pb, 'tp) heap \<Rightarrow> ('pb, 'tp) heap" where
  "copy_containerConfig ep dstEp h =
     (if o_containerConfig (ep_objs h ep) \<noteq> None then
        (case new_cc \<lparr>o_ParentEndpoints = None, o_ChildEndpoints = None\<rparr> h of
           (p, h1) \<Rightarrow>
             (let h2 = upd_ep dstEp (\<lambda>x. x\<lparr>o_containerConfig := Some p\<rparr>) h1
              in case o_containerConfig (ep_objs h2 ep) of
                   None \<Rightarrow> h2
                 | Some cc \<Rightarrow> cc_CopyTo cc p h2))
      else h)"

definition make_portMapping :: "('pb, 'tp) zeros \<Rightarrow> ref \<Rightarrow> ref \<Rightarrow> ('pb, 'tp) heap \<Rightarrow> ('pb, 'tp) heap" where
  "make_portMapping Z ep dstEp h =
     (case new_pbs (replicate (len_at (pb_arrays h) (o_portMapping (ep_objs h ep))) (zero_pb Z)) h of
        (r, h') \<Rightarrow> upd_ep dstEp (\<lambda>x. x\<lparr>o_portMapping := Some r\<rparr>) h')"

definition copy_portMapping :: "ref \<Rightarrow> ref \<Rightarrow> ('pb, 'tp) heap \<Rightarrow> ('pb, 'tp) heap" where
  "copy_portMapping ep dstEp h =
     (case o_portMapping (ep_objs h dstEp) of
        None \<Rightarrow> h
      | Some r \<Rightarrow>
          h\<lparr>pb_arrays := (pb_arrays h)
               (r := copy_elems (pb_arrays h r)
                       (elems_at (pb_arrays h) (o_portMapping (ep_objs h ep))))\<rparr>)"

text \<open>
  The argument \<open>o\<close> is a \<^verbatim>\<open>datastore.KVObject\<close>: a pointer to an endpoint (nil or
  not) or an object of another type, on which \<^verbatim>\<open>o.(*bridgeEndpoint)\<close> panics. The
  error returned is always nil.
\<close>

datatype kvptr = EpPtr "ref option" | OtherPtr

definition CopyTo_stmts :: "('pb, 'tp) zeros \<Rightarrow> ref \<Rightarrow> ref \<Rightarrow> (('pb, 'tp) heap \<Rightarrow> ('pb, 'tp) heap) list" where
  "CopyTo_stmts Z ep dstEp =
     [copy_id ep dstEp,
      copy_srcName ep dstEp,
      copy_addr ep dstEp,
      copy_addrv6 ep dstEp,
      copy_macAddress ep dstEp,
      copy_config Z ep dstEp,
      copy_containerConfig ep dstEp,
      make_portMapping Z ep dstEp,
      copy_portMapping ep dstEp]"

definition CopyTo ::
  "('pb, 'tp) zeros \<Rightarrow> ('pb, 'tp) heap \<Rightarrow> ref \<Rightarrow> kvptr \<Rightarrow> (error option \<times> ('pb, 'tp) heap) outcome" where
  "CopyTo Z h ep o' =
     (case o' of
        OtherPtr \<Rightarrow> Panics
      | EpPtr None \<Rightarrow> Panics
      | EpPtr (Some dstEp) \<Rightarrow> Returns (None, fold (\<lambda>stmt. stmt) (CopyTo_stmts Z ep dstEp) h))"

section \<open>Conditions on a decoded map\<close>


text \<open>The key \<open>k\<close> is absent from \<open>m\<close>, or present with a string that \<open>parse\<close> parses.\<close>

definition accepts :: "(string \<Rightarrow> error + 'a) \<Rightarrow> gomap \<Rightarrow> string \<Rightarrow> bool" where
  "accepts parse m k =
     (if has_key m k then
        (case assert_string (lookup m k) of
           None \<Rightarrow> False
         | Some s \<Rightarrow> (case parse s of Inl e \<Rightarrow> False | Inr x \<Rightarrow> True))
      else True)"

text \<open>The key \<open>k\<close> is absent from \<open>m\<close>, or present with the value \<^verbatim>\<open>null\<close>.\<close>

definition null_or_absent :: "gomap \<Rightarrow> string \<Rightarrow> bool" where
  "null_or_absent m k = (lookup m k = GoNil)"


section \<open>Decoding what was encoded\<close>

text \<open>
  \<^verbatim>\<open>New\<close> returns the record the store decodes into:
  \<^verbatim>\<open>&bridgeEndpoint{network: ep.network}\<close>.
\<close>

definition New :: "('pb, 'tp) bridgeEndpoint \<Rightarrow> ('pb, 'tp) bridgeEndpoint" where
  "New ep = ep_zero (network ep)"

text \<open>Encoding a record and decoding the bytes into a new record of the same network.\<close>

definition roundtrip :: "('pb, 'tp) lib \<Rightarrow> ('pb, 'tp) bridgeEndpoint \<Rightarrow> ('pb, 'tp) bridgeEndpoint result" where
  "roundtrip L ep =
     (case MarshalJSON L ep of
        Inl e \<Rightarrow> Err e (New ep)
      | Inr b \<Rightarrow> UnmarshalJSON L (New ep) b)"

section \<open>Sample values\<close>

text \<open>
  Concrete values on which the theorems below are instantiated: an address, a hardware
  address, and an instance of the library functions in which a port binding and a
  transport port are their own canonical strings.
\<close>

definition sample_net :: IPNet where
  "sample_net = \<lparr>IP = Some [10, 0, 0, 5], Mask = Some [255, 255, 255, 0]\<rparr>"

definition sample_mac :: "byte list" where
  "sample_mac = [2, 66, 172, 17, 0, 2]"

definition sample_lib :: "(string, string) lib" where
  "sample_lib =
     \<lparr>ParseCIDR = (\<lambda>s. if s = ''10.0.0.5/24'' then Inr sample_net
                        else Inl (ParseError ''invalid CIDR address'')),
      IPNet_String = (\<lambda>n. if n = sample_net then ''10.0.0.5/24'' else ''<nil>''),
      ParseMAC = (\<lambda>s. if s = ''02:42:ac:11:00:02'' then Inr sample_mac
                       else Inl (ParseError ''invalid MAC address'')),
      HardwareAddr_String = (\<lambda>m. if m = sample_mac then ''02:42:ac:11:00:02'' else []),
      PortBinding_FromString = (\<lambda>s. if s = [] then Inl (ParseError ''empty string'') else Inr s),
      PortBinding_String = (\<lambda>p. p),
      TransportPort_FromString = (\<lambda>s. if s = [] then Inl (ParseError ''empty string'') else Inr s),
      TransportPort_String = (\<lambda>p. p)\<rparr>"

text \<open>An endpoint with every optional field present, and one with none.\<close>

definition sample_full :: "(string, string) bridgeEndpoint" where
  "sample_full =
     \<lparr>ep_id = ''ep1'', srcName = ''veth0'', addr = Some sample_net, addrv6 = Some sample_net,
      macAddress = Some sample_mac,
      config = Some \<lparr>MacAddress = Some sample_mac, PortBindings = Some [''172.17.0.2:80/tcp:80''],
                     ExposedPorts = Some [''80/tcp'']\<rparr>,
      containerConfig = Some \<lparr>ParentEndpoints = Some [''p1''], ChildEndpoints = Some [''c1'']\<rparr>,
      portMapping = Some [''172.17.0.2:80/tcp:80''],
      network = Some 0, dbIndex = 0, dbExists = False\<rparr>"

definition sample_bare :: "(string, string) bridgeEndpoint" where
  "sample_bare = (ep_zero (Some 0))\<lparr>ep_id := ''ep1'', srcName := ''veth0''\<rparr>"

definition sample_networks :: "(string, string) networks" where
  "sample_networks = (\<lambda>n. \<lparr>net_id = ''net1'', endpoints = Some Map.empty\<rparr>)"

text \<open>A store whose \<^verbatim>\<open>List\<close> returns the given objects and error for every key.\<close>

definition sample_store ::
  "(string, string) kvobject list \<Rightarrow> error option \<Rightarrow> (string, string) datastore" where
  "sample_store kvol err =
     \<lparr>datastore_Key = (\<lambda>ks. concat (map (\<lambda>k. k @ ''/'') ks)),
      store_List = (\<lambda>key proto. (kvol, err))\<rparr>"

section \<open>Storage of an endpoint on the heap\<close>

text \<open>
  A cell is one backing array or one object of the heap. The storage of an endpoint is
  its own object and every cell reached from it through its pointers and slices (the
  back-reference to the network is not followed: the network is not owned).
\<close>

datatype cell =
    ByteArr ref
  | StrArr ref
  | PBArr ref
  | TPArr ref
  | IPNetObj ref
  | EpcObj ref
  | CcObj ref
  | EpObj ref

fun ref_of :: "cell \<Rightarrow> ref" where
  "ref_of (ByteArr r) = r"
| "ref_of (StrArr r) = r"
| "ref_of (PBArr r) = r"
| "ref_of (TPArr r) = r"
| "ref_of (IPNetObj r) = r"
| "ref_of (EpcObj r) = r"
| "ref_of (CcObj r) = r"
| "ref_of (EpObj r) = r"

definition slice_cells :: "(ref \<Rightarrow> cell) \<Rightarrow> ref option \<Rightarrow> cell list" where
  "slice_cells K s = (case s of None \<Rightarrow> [] | Some r \<Rightarrow> [K r])"

definition ipnet_cells :: "('pb, 'tp) heap \<Rightarrow> ref option \<Rightarrow> cell list" where
  "ipnet_cells h p =
     (case p of
        None \<Rightarrow> []
      | Some r \<Rightarrow>
          IPNetObj r # slice_cells ByteArr (o_IP (ipnet_objs h r))
            @ slice_cells ByteArr (o_Mask (ipnet_objs h r)))"

definition epc_cells :: "('pb, 'tp) heap \<Rightarrow> ref option \<Rightarrow> cell list" where
  "epc_cells h p =
     (case p of
        None \<Rightarrow> []
      | Some r \<Rightarrow>
          EpcObj r # slice_cells ByteArr (o_MacAddress (epc_objs h r))
            @ slice_cells PBArr (o_PortBindings (epc_objs h r))
            @ slice_cells TPArr (o_ExposedPorts (epc_objs h r)))"

definition cc_cells :: "('pb, 'tp) heap \<Rightarrow> ref option \<Rightarrow> cell list" where
  "cc_cells h p =
     (case p of
        None \<Rightarrow> []
      | Some r \<Rightarrow>
          CcObj r # slice_cells StrArr (o_ParentEndpoints (cc_objs h r))
            @ slice_cells StrArr (o_ChildEndpoints (cc_objs h r)))"

definition footprint :: "('pb, 'tp) heap \<Rightarrow> ref \<Rightarrow> cell list" where
  "footprint h e =
     EpObj e # ipnet_cells h (o_addr (ep_objs h e))
       @ ipnet_cells h (o_addrv6 (ep_objs h e))
       @ slice_cells ByteArr (o_macAddress (ep_objs h e))
       @ epc_cells h (o_config (ep_objs h e))
       @ cc_cells h (o_containerConfig (ep_objs h e))
       @ slice_cells PBArr (o_portMapping (ep_objs h e))"

text \<open>The storage of the endpoint at \<open>e\<close> lies below the allocator's next reference.\<close>

definition allocated :: "('pb, 'tp) heap \<Rightarrow> ref \<Rightarrow> bool" where
  "allocated h e = list_all (\<lambda>c. ref_of c < next_ref h) (footprint h e)"

text \<open>
  The cells of the destination's sub-configurations that \<^verbatim>\<open>CopyTo\<close> does not
  replace, because the source has none.
\<close>

definition kept_cells :: "('pb, 'tp) heap \<Rightarrow> ref \<Rightarrow> ref \<Rightarrow> cell list" where
  "kept_cells h ep dstEp =
     (if o_config (ep_objs h ep) = None then epc_cells h (o_config (ep_objs h dstEp)) else [])
     @ (if o_containerConfig (ep_objs h ep) = None
        then cc_cells h (o_containerConfig (ep_objs h dstEp)) else [])"

text \<open>The cell \<open>c\<close> holds the same in both heaps.\<close>

fun same_cell :: "('pb, 'tp) heap \<Rightarrow> ('pb, 'tp) heap \<Rightarrow> cell \<Rightarrow> bool" where
  "same_cell h h' (ByteArr r) = (byte_arrays h' r = byte_arrays h r)"
| "same_cell h h' (StrArr r) = (string_arrays h' r = string_arrays h r)"
| "same_cell h h' (PBArr r) = (pb_arrays h' r = pb_arrays h r)"
| "same_cell h h' (TPArr r) = (tp_arrays h' r = tp_arrays h r)"
| "same_cell h h' (IPNetObj r) = (ipnet_objs h' r = ipnet_objs h r)"
| "same_cell h h' (EpcObj r) = (epc_objs h' r = epc_objs h r)"
| "same_cell h h' (CcObj r) = (cc_objs h' r = cc_objs h r)"
| "same_cell h h' (EpObj r) = (ep_objs h' r = ep_objs h r)"

text \<open>
  The heap \<open>h'\<close> differs from \<open>h\<close> in cells of \<open>cs\<close> only: \<open>h'\<close> is \<open>h\<close> after any
  mutation of the storage \<open>cs\<close>.
\<close>

definition mutated_within :: "cell list \<Rightarrow> ('pb, 'tp) heap \<Rightarrow> ('pb, 'tp) heap \<Rightarrow> bool" where
  "mutated_within cs h h' = (\<forall>c. c \<in> set cs \<or> same_cell h h' c)"

text \<open>The value of the endpoint at \<open>e\<close>: the record of all that is read through it.\<close>

definition load_slice :: "(ref \<Rightarrow> 'a list) \<Rightarrow> ref option \<Rightarrow> 'a slice" where
  "load_slice arr s = map_option arr s"

definition load_ipnet :: "('pb, 'tp) heap \<Rightarrow> ref option \<Rightarrow> IPNet option" where
  "load_ipnet h p =
     map_option
       (\<lambda>r. \<lparr>IP = load_slice (byte_arrays h) (o_IP (ipnet_objs h r)),
             Mask = load_slice (byte_arrays h) (o_Mask (ipnet_objs h r))\<rparr>) p"

definition load_epc :: "('pb, 'tp) heap \<Rightarrow> ref option \<Rightarrow> ('pb, 'tp) endpointConfiguration option" where
  "load_epc h p =
     map_option
       (\<lambda>r. \<lparr>MacAddress = load_slice (byte_arrays h) (o_MacAddress (epc_objs h r)),
             PortBindings = load_slice (pb_arrays h) (o_PortBindings (epc_objs h r)),
             ExposedPorts = load_slice (tp_arrays h) (o_ExposedPorts (epc_objs h r))\<rparr>) p"

definition load_cc :: "('pb, 'tp) heap \<Rightarrow> ref option \<Rightarrow> containerConfiguration option" where
  "load_cc h p =
     map_option
       (\<lambda>r. \<lparr>ParentEndpoints = load_slice (string_arrays h) (o_ParentEndpoints (cc_objs h r)),
             ChildEndpoints = load_slice (string_arrays h) (o_ChildEndpoints (cc_objs h r))\<rparr>) p"

definition load_ep :: "('pb, 'tp) heap \<Rightarrow> ref \<Rightarrow> ('pb, 'tp) bridgeEndpoint" where
  "load_ep h e =
     \<lparr>ep_id = o_id (ep_objs h e),
      srcName = o_srcName (ep_objs h e),
      addr = load_ipnet h (o_addr (ep_objs h e)),
      addrv6 = load_ipnet h (o_addrv6 (ep_objs h e)),
      macAddress = load_slice (byte_arrays h) (o_macAddress (ep_objs h e)),
      config = load_epc h (o_config (ep_objs h e)),
      containerConfig = load_cc h (o_containerConfig (ep_objs h e)),
      portMapping = load_slice (pb_arrays h) (o_portMapping (ep_objs h e)),
      network = o_network (ep_objs h e),
      dbIndex = o_dbIndex (ep_objs h e),
      dbExists = o_dbExists (ep_objs h e)\<rparr>"

text \<open>
  A step from \<open>h\<close> to \<open>h'\<close> that allocates, and that writes only to what it allocates
  and to the endpoint object at \<open>d\<close>.
\<close>

definition extends :: "ref \<Rightarrow> ('pb, 'tp) heap \<Rightarrow> ('pb, 'tp) heap \<Rightarrow> bool" where
  "extends d h h' =
     (next_ref h \<le> next_ref h' \<and>
      (\<forall>r. r < next_ref h \<longrightarrow>
         byte_arrays h' r = byte_arrays h r \<and> string_arrays h' r = string_arrays h r \<and>
         pb_arrays h' r = pb_arrays h r \<and> tp_arrays h' r = tp_arrays h r \<and>
         ipnet_objs h' r = ipnet_objs h r \<and> epc_objs h' r = epc_objs h r \<and>
         cc_objs h' r = cc_objs h r) \<and>
      (\<forall>r. r \<noteq> d \<longrightarrow> ep_objs h' r = ep_objs h r))"

text \<open>The cells \<open>cs\<close> were allocated at or after the reference \<open>b\<close>.\<close>

definition fresh_in :: "ref \<Rightarrow> ('pb, 'tp) heap \<Rightarrow> cell list \<Rightarrow> bool" where
  "fresh_in b h cs = list_all (\<lambda>c. b \<le> ref_of c \<and> ref_of c < next_ref h) cs"

section \<open>What CopyTo computes, on values\<close>

text \<open>
  The copy of a sub-configuration: the hardware address as it is, and every list as a
  slice that is not nil, with the same elements.
\<close>

definition ec_copy :: "('pb, 'tp) endpointConfiguration \<Rightarrow> ('pb, 'tp) endpointConfiguration" where
  "ec_copy c =
     \<lparr>MacAddress = MacAddress c, PortBindings = Some (elems (PortBindings c)),
      ExposedPorts = Some (elems (ExposedPorts c))\<rparr>"

definition cc_copy :: "containerConfiguration \<Rightarrow> containerConfiguration" where
  "cc_copy c =
     \<lparr>ParentEndpoints = Some (elems (ParentEndpoints c)),
      ChildEndpoints = Some (elems (ChildEndpoints c))\<rparr>"

text \<open>
  The destination \<open>dstEp\<close> after \<^verbatim>\<open>ep.CopyTo(dstEp)\<close>, as values: a sub-configuration
  is replaced only when the source has one, and the network, the version index and the
  existence flag are not assigned.
\<close>

definition copied :: "('pb, 'tp) bridgeEndpoint \<Rightarrow> ('pb, 'tp) bridgeEndpoint \<Rightarrow> ('pb, 'tp) bridgeEndpoint" where
  "copied ep dstEp =
     dstEp\<lparr>ep_id := ep_id ep, srcName := srcName ep, addr := addr ep, addrv6 := addrv6 ep,
            macAddress := macAddress ep,
            config := (case config ep of None \<Rightarrow> config dstEp | Some c \<Rightarrow> Some (ec_copy c)),
            containerConfig :=
              (case containerConfig ep of None \<Rightarrow> containerConfig dstEp | Some c \<Rightarrow> Some (cc_copy c)),
            portMapping := Some (elems (portMapping ep))\<rparr>"

section \<open>Sample heaps\<close>

text \<open>
  A heap with two endpoints. The endpoint at 1 has an address, a hardware address, a
  container configuration and one port mapping, and no endpoint configuration. The
  endpoint at 0 has an endpoint configuration of its own and nothing else.
\<close>

definition sample_zeros :: "(string, string) zeros" where
  "sample_zeros = \<lparr>zero_pb = [], zero_tp = []\<rparr>"

definition sample_heap :: "(string, string) heap" where
  "sample_heap =
     \<lparr>byte_arrays = (\<lambda>r. [])(3 := [10, 0, 0, 5], 4 := [255, 255, 255, 0], 5 := sample_mac,
                                 7 := sample_mac),
      string_arrays = (\<lambda>r. [])(10 := [''p1''], 11 := [''c1'']),
      pb_arrays = (\<lambda>r. [])(8 := [''10.0.0.9:53/udp:53''], 12 := [''172.17.0.2:80/tcp:80'']),
      tp_arrays = (\<lambda>r. []),
      ipnet_objs = (\<lambda>r. \<lparr>o_IP = None, o_Mask = None\<rparr>)(2 := \<lparr>o_IP = Some 3, o_Mask = Some 4\<rparr>),
      epc_objs = (\<lambda>r. \<lparr>o_MacAddress = None, o_PortBindings = None, o_ExposedPorts = None\<rparr>)
                   (6 := \<lparr>o_MacAddress = Some 7, o_PortBindings = Some 8, o_ExposedPorts = None\<rparr>),
      cc_objs = (\<lambda>r. \<lparr>o_ParentEndpoints = None, o_ChildEndpoints = None\<rparr>)
                  (9 := \<lparr>o_ParentEndpoints = Some 10, o_ChildEndpoints = Some 11\<rparr>),
      ep_objs = (\<lambda>r. \<lparr>o_id = [], o_srcName = [], o_addr = None, o_addrv6 = None,
                         o_macAddress = None, o_config = None, o_containerConfig = None,
                         o_portMapping = None, o_network = None, o_dbIndex = 0, o_dbExists = False\<rparr>)
                  (0 := \<lparr>o_id = ''ep0'', o_srcName = ''veth9'', o_addr = None, o_addrv6 = None,
                          o_macAddress = None, o_config = Some 6, o_containerConfig = None,
                          o_portMapping = None, o_network = Some 0, o_dbIndex = 0, o_dbExists = False\<rparr>,
                   1 := \<lparr>o_id = ''ep1'', o_srcName = ''veth0'', o_addr = Some 2, o_addrv6 = None,
                          o_macAddress = Some 5, o_config = None, o_containerConfig = Some 9,
                          o_portMapping = Some 12, o_network = Some 0, o_dbIndex = 7, o_dbExists = True\<rparr>),
      next_ref = 13\<rparr>"

text \<open>
  The same heap, but the port bindings of the configuration of the endpoint at 0 are
  the backing array of the port mappings of the endpoint at 1.
\<close>

definition sample_shared_heap :: "(string, string) heap" where
  "sample_shared_heap =
     sample_heap\<lparr>epc_objs := (epc_objs sample_heap)
       (6 := \<lparr>o_MacAddress = Some 7, o_PortBindings = Some 12, o_ExposedPorts = None\<rparr>)\<rparr>"

section \<open>Maps and encoders: auxiliary facts\<close>

lemma has_key_Nil: "\<not> has_key [] k"
  by (simp add: has_key_def)

lemma has_key_Cons: "has_key (kv # m) k' = (k' = fst kv \<or> has_key m k')"
  by (cases kv) (auto simp: has_key_def)

lemma has_key_update: "has_key (AList.update k v m) k' = (k' = k \<or> has_key m k')"
  by (simp add: has_key_def update_conv')

lemma has_key_fst: "has_key m k = (k \<in> fst ` set m)"
  by (simp add: has_key_def map_of_eq_None_iff)

lemma lookup_Nil: "lookup [] k = GoNil"
  by (simp add: lookup_def)

lemma lookup_update: "lookup (AList.update k v m) k' = (if k' = k then v else lookup m k')"
  by (simp add: lookup_def update_conv')


lemma marshal_value_Inr: "\<exists>j. marshal_value L v = Inr j"
  by (cases v)
     (simp_all add: marshal_value_def marshaler_def ec_MarshalJSON_def cc_MarshalJSON_def
        json_Marshal_def split: option.splits)

lemma marshal_members_keys: "\<exists>kvs. marshal_members L m = Inr kvs \<and> map fst kvs = map fst m"
proof (induction m)
  case Nil
  show ?case by simp
next
  case (Cons kv m)
  obtain j where j: "marshal_value L (snd kv) = Inr j"
    using marshal_value_Inr by blast
  from Cons obtain kvs where kvs: "marshal_members L m = Inr kvs" "map fst kvs = map fst m"
    by blast
  show ?case by (simp add: j kvs)
qed

section \<open>The JSON library: auxiliary facts\<close>

text \<open>What \<^verbatim>\<open>json.Marshal\<close> writes holds no number out of range.\<close>

lemma overflows_list_strings: "\<not> overflows_list (map JString xs)"
  by (induction xs) simp_all

lemma overflows_list_map:
  "(\<And>x. x \<in> set xs \<Longrightarrow> \<not> overflows (f x)) \<Longrightarrow> \<not> overflows_list (map f xs)"
  by (induction xs) simp_all

lemma encode_in_range:
  "\<not> overflows (encode v)" "\<not> overflows_members (encode_members m)"
proof (induction v and m rule: encode_encode_members.induct)
  case (5 xs)
  then show ?case by (simp add: overflows_list_map)
next
  case (7 ss)
  then show ?case by (simp add: overflows_list_strings split: option.splits)
qed simp_all

lemma overflows_list_encode: "\<not> overflows_list (map (encode \<circ> f) xs)"
  by (induction xs) (simp_all add: encode_in_range)

text \<open>What \<^verbatim>\<open>json.Unmarshal\<close> stores into an \<^verbatim>\<open>interface{}\<close> is never a \<^verbatim>\<open>[]string\<close>.\<close>

lemma assert_strings_decode: "assert_strings (decode j) = None"
  by (cases j) (simp_all add: assert_strings_def)

lemma assert_strings_decode_members:
  "(\<And>k. assert_strings (lookup m k) = None) \<Longrightarrow>
   assert_strings (lookup (decode_members kvs m) k) = None"
proof (induction kvs arbitrary: m k)
  case Nil
  then show ?case by simp
next
  case (Cons kv kvs)
  have "assert_strings (lookup (AList.update (fst kv) (decode (snd kv)) m) k') = None" for k'
    using Cons.prems [of k'] by (simp add: lookup_def update_conv' assert_strings_decode)
  then show ?case
    by (simp add: Cons.IH)
qed

text \<open>
  An object that holds a number out of the range of \<^verbatim>\<open>float64\<close> is refused with the
  error of \<^verbatim>\<open>json.Unmarshal\<close>, before any key is read; the record is left as it was.
\<close>

lemma UnmarshalJSON_number_out_of_range:
  "overflows_members kvs \<Longrightarrow> UnmarshalJSON L ep (Some (JObject kvs)) = Err UnmarshalTypeError ep"
  by (simp add: UnmarshalJSON_def json_Unmarshal_map_def)

section \<open>The encoder omits what is unset\<close>

text \<open>
  Claim C6. \<^verbatim>\<open>MarshalJSON\<close> always returns a JSON object, and that object has the key
  \<^verbatim>\<open>addrv6\<close> exactly when the IPv6 address of the record is not nil: for a record
  whose \<open>addrv6\<close> is nil the key is absent, not present with some zero address. In the
  same way \<^verbatim>\<open>addr\<close> is present exactly when the address is not nil, and
  \<^verbatim>\<open>macAddress\<close> and \<^verbatim>\<open>portMapping\<close> exactly when the hardware address and the port
  mappings are not empty.
\<close>

theorem MarshalJSON_omits_unset:
  "\<exists>kvs. MarshalJSON L ep = Inr (Some (JObject kvs)) \<and>
     has_key kvs ''addrv6'' = (addrv6 ep \<noteq> None) \<and>
     has_key kvs ''addr'' = (addr ep \<noteq> None) \<and>
     has_key kvs ''macAddress'' = (len (macAddress ep) \<noteq> 0) \<and>
     has_key kvs ''portMapping'' = (len (portMapping ep) \<noteq> 0)"
proof -
  obtain kvs where kvs: "marshal_members L (nMap_of L ep) = Inr kvs"
      "map fst kvs = map fst (nMap_of L ep)"
    using marshal_members_keys by blast
  have keys: "has_key kvs k = has_key (nMap_of L ep) k" for k
    using kvs(2) by (metis has_key_fst set_map)
  have "MarshalJSON L ep = Inr (Some (JObject kvs))"
    by (simp add: MarshalJSON_def json_Marshal_map_def kvs(1))
  moreover have "has_key (nMap_of L ep) ''addrv6'' = (addrv6 ep \<noteq> None)"
    by (simp add: nMap_of_def Let_def has_key_update has_key_Cons has_key_Nil split: option.splits)
  moreover have "has_key (nMap_of L ep) ''addr'' = (addr ep \<noteq> None)"
    by (simp add: nMap_of_def Let_def has_key_update has_key_Cons has_key_Nil split: option.splits)
  moreover have "has_key (nMap_of L ep) ''macAddress'' = (len (macAddress ep) \<noteq> 0)"
    by (simp add: nMap_of_def Let_def has_key_update has_key_Cons has_key_Nil split: option.splits)
  moreover have "has_key (nMap_of L ep) ''portMapping'' = (len (portMapping ep) \<noteq> 0)"
    by (simp add: nMap_of_def Let_def has_key_update has_key_Cons has_key_Nil split: option.splits)
  ultimately show ?thesis
    by (simp add: keys)
qed

section \<open>Keys\<close>

text \<open>
  Claim C8. For an endpoint bound to a network, \<^verbatim>\<open>Key()\<close> is the list
  \<^verbatim>\<open>"bridge_endpoint"\<close>, the network's identifier, the endpoint's identifier, in this
  order; \<^verbatim>\<open>KeyPrefix()\<close> is the list of the first two; and \<^verbatim>\<open>Key()\<close> is
  \<^verbatim>\<open>KeyPrefix()\<close> with the endpoint's identifier appended.
\<close>

theorem Key_is_KeyPrefix_and_id:
  assumes "network ep = Some n"
  shows "Key ns ep = Returns [''bridge_endpoint'', net_id (ns n), ep_id ep] \<and>
         KeyPrefix ns ep = Returns [''bridge_endpoint'', net_id (ns n)] \<and>
         (\<exists>p. KeyPrefix ns ep = Returns p \<and> Key ns ep = Returns (p @ [ep_id ep]))"
  using assms by (simp add: Key_def KeyPrefix_def bridgeEndpointPrefix_def)

theorem Key_is_KeyPrefix_and_id_witness:
  "Key sample_networks sample_full = Returns [''bridge_endpoint'', ''net1'', ''ep1''] \<and>
   KeyPrefix sample_networks sample_full = Returns [''bridge_endpoint'', ''net1'']"
proof -
  have n: "network sample_full = Some 0"
    by (simp add: sample_full_def)
  from Key_is_KeyPrefix_and_id [OF n, of sample_networks]
  show ?thesis
    by (simp add: sample_networks_def sample_full_def)
qed

section \<open>Restore\<close>

lemma getEndpointsFromStore_error:
  assumes "store_List S (datastore_Key S [bridgeEndpointPrefix, net_id (ns n)]) (ep_zero (Some n))
             = (kvol, Some err)"
      and "err \<noteq> ErrKeyNotFound"
  shows "getEndpointsFromStore S ns n = Returns (None, Some err)"
  using assms by (simp add: getEndpointsFromStore_def KeyPrefix_def ep_zero_def)

text \<open>
  Claim C4. When the store's \<^verbatim>\<open>List\<close>, called with the key of the network's prefix
  and the prototype endpoint, returns an error other than \<^verbatim>\<open>ErrKeyNotFound\<close>
  (whatever objects it returns with it), \<^verbatim>\<open>populateEndpoints\<close> returns that error and
  every network, the endpoint table of this one included, is as it was.
\<close>

theorem populateEndpoints_propagates_error:
  assumes "store_List S (datastore_Key S [''bridge_endpoint'', net_id (ns n)]) (ep_zero (Some n))
             = (kvol, Some err)"
      and "err \<noteq> ErrKeyNotFound"
  shows "populateEndpoints S ns n = Returns (Some err, ns)"
  using assms getEndpointsFromStore_error [of S ns n kvol err]
  by (simp add: populateEndpoints_def bridgeEndpointPrefix_def)

theorem populateEndpoints_propagates_error_witness:
  "populateEndpoints
     (sample_store [KVBridgeEndpoint sample_full] (Some (StoreError ''connection refused'')))
     sample_networks 0
     = Returns (Some (StoreError ''connection refused''), sample_networks)"
proof -
  have l: "store_List (sample_store [KVBridgeEndpoint sample_full] (Some (StoreError ''connection refused'')))
             (datastore_Key (sample_store [KVBridgeEndpoint sample_full] (Some (StoreError ''connection refused'')))
                [''bridge_endpoint'', net_id (sample_networks 0)])
             (ep_zero (Some 0))
           = ([KVBridgeEndpoint sample_full], Some (StoreError ''connection refused''))"
    by (simp add: sample_store_def)
  have e: "StoreError ''connection refused'' \<noteq> ErrKeyNotFound"
    by simp
  show ?thesis
    by (rule populateEndpoints_propagates_error
        [where S = "sample_store [KVBridgeEndpoint sample_full] (Some (StoreError ''connection refused''))"
           and ns = sample_networks and n = 0, OF l e])
qed

text \<open>
  Claim C5. When the store's \<^verbatim>\<open>List\<close> reports not-found for the network's prefix (it
  returns no object and the error \<^verbatim>\<open>ErrKeyNotFound\<close>), \<^verbatim>\<open>populateEndpoints\<close> returns
  a nil error and no endpoint is added: every network is as it was.
\<close>

theorem populateEndpoints_not_found:
  assumes "store_List S (datastore_Key S [''bridge_endpoint'', net_id (ns n)]) (ep_zero (Some n))
             = ([], Some ErrKeyNotFound)"
  shows "populateEndpoints S ns n = Returns (None, ns)"
  using assms
  by (simp add: populateEndpoints_def getEndpointsFromStore_def KeyPrefix_def ep_zero_def
      bridgeEndpointPrefix_def elems_def)

theorem populateEndpoints_not_found_witness:
  "populateEndpoints (sample_store [] (Some ErrKeyNotFound)) sample_networks 0
     = Returns (None, sample_networks)"
proof -
  have l: "store_List (sample_store [] (Some ErrKeyNotFound))
             (datastore_Key (sample_store [] (Some ErrKeyNotFound))
                [''bridge_endpoint'', net_id (sample_networks 0)])
             (ep_zero (Some 0))
           = ([], Some ErrKeyNotFound)"
    by (simp add: sample_store_def)
  show ?thesis
    by (rule populateEndpoints_not_found
        [where S = "sample_store [] (Some ErrKeyNotFound)" and ns = sample_networks and n = 0, OF l])
qed

section \<open>Decoding: the required keys\<close>

text \<open>
  Claim C2. The claim asks for a returned error when \<^verbatim>\<open>id\<close> or \<^verbatim>\<open>srcName\<close> is
  absent or not a string. The code reads both with an unchecked type assertion: for
  every input that \<^verbatim>\<open>json.Unmarshal\<close> decodes into the map (a JSON object, or
  \<^verbatim>\<open>null\<close>) in which one of the two is absent or holds a value that is not a string,
  \<^verbatim>\<open>UnmarshalJSON\<close> panics instead of returning an error.
\<close>

theorem UnmarshalJSON_required_key_panics:
  assumes "json_Unmarshal_map b = Inr nMap"
      and "assert_string (lookup nMap ''id'') = None \<or> assert_string (lookup nMap ''srcName'') = None"
  shows "UnmarshalJSON L ep b = Panic"
  using assms
  by (auto simp: UnmarshalJSON_def decode_id_def decode_srcName_def split: option.splits)

theorem UnmarshalJSON_required_key_panics_witness:
  "UnmarshalJSON sample_lib (ep_zero None) (Some (JObject [(''srcName'', JString ''veth0'')])) = Panic"
proof -
  have m: "json_Unmarshal_map (Some (JObject [(''srcName'', JString ''veth0'')]))
             = Inr [(''srcName'', GoString ''veth0'')]"
    by (simp add: json_Unmarshal_map_def)
  have a: "assert_string (lookup [(''srcName'', GoString ''veth0'')] ''id'') = None
           \<or> assert_string (lookup [(''srcName'', GoString ''veth0'')] ''srcName'') = None"
    by (simp add: lookup_def assert_string_def)
  show ?thesis
    by (rule UnmarshalJSON_required_key_panics [OF m a])
qed

section \<open>Decoding: the optional keys\<close>

lemma decode_id_GoString: "lookup nMap ''id'' = GoString i \<Longrightarrow> decode_id nMap ep = Ok (ep\<lparr>ep_id := i\<rparr>)"
  by (simp add: decode_id_def assert_string_def)

lemma decode_srcName_GoString:
  "lookup nMap ''srcName'' = GoString sn \<Longrightarrow> decode_srcName nMap ep = Ok (ep\<lparr>srcName := sn\<rparr>)"
  by (simp add: decode_srcName_def assert_string_def)




lemma decode_addr_accepts:
  "accepts (ParseCIDR L) nMap ''addr'' \<Longrightarrow> \<exists>a. decode_addr L nMap ep = Ok (ep\<lparr>addr := a\<rparr>)"
  by (auto simp: accepts_def decode_addr_def split: option.splits sum.splits if_splits
      intro: exI [of _ "addr ep"])

lemma decode_addrv6_accepts:
  "accepts (ParseCIDR L) nMap ''addrv6'' \<Longrightarrow> \<exists>a. decode_addrv6 L nMap ep = Ok (ep\<lparr>addrv6 := a\<rparr>)"
  by (auto simp: accepts_def decode_addrv6_def split: option.splits sum.splits if_splits
      intro: exI [of _ "addrv6 ep"])

lemma decode_macAddress_accepts:
  "accepts (ParseMAC L) nMap ''macAddress'' \<Longrightarrow>
   \<exists>m. decode_macAddress L nMap ep = Ok (ep\<lparr>macAddress := m\<rparr>)"
  by (auto simp: accepts_def decode_macAddress_def split: option.splits sum.splits if_splits
      intro: exI [of _ "macAddress ep"])



section \<open>Decoding: the sub-configurations\<close>

lemma decode_config_null_or_absent:
  "null_or_absent nMap ''config'' \<Longrightarrow> decode_config L nMap ep = Ok (ep\<lparr>config := None\<rparr>)"
  by (simp add: null_or_absent_def decode_config_def json_Marshal_def json_Unmarshal_ptr_def)

lemma decode_containerConfig_null_or_absent:
  "null_or_absent nMap ''containerConfiguration'' \<Longrightarrow>
   decode_containerConfig nMap ep = Ok (ep\<lparr>containerConfig := None\<rparr>)"
  by (simp add: null_or_absent_def decode_containerConfig_def json_Marshal_def json_Unmarshal_ptr_def)

lemma decode_config_empty_object:
  "lookup nMap ''config'' = GoMap [] \<Longrightarrow> decode_config L nMap ep = Ok (ep\<lparr>config := Some ec_zero\<rparr>)"
  by (simp add: decode_config_def json_Marshal_def json_Unmarshal_ptr_def ec_UnmarshalJSON_def
      json_Unmarshal_map_def ec_decode_MacAddress_def ec_decode_PortBindings_def
      ec_decode_ExposedPorts_def has_key_Nil ec_zero_def)

lemma decode_portMapping_absent:
  "\<not> has_key nMap ''portMapping'' \<Longrightarrow> decode_portMapping L nMap ep = Ok (ep\<lparr>portMapping := None\<rparr>)"
  by (simp add: decode_portMapping_def)

text \<open>
  For an input that \<^verbatim>\<open>json.Unmarshal\<close> decodes into the map, the statements that
  decode \<^verbatim>\<open>config\<close> neither panic nor return an error when the key is absent or its
  value is \<^verbatim>\<open>null\<close>: they set \<open>config\<close> to nil; the same holds of
  \<^verbatim>\<open>containerConfiguration\<close> and \<open>containerConfig\<close>. An empty object under \<^verbatim>\<open>config\<close>
  is decoded into an empty configuration. And \<^verbatim>\<open>UnmarshalJSON\<close> as a whole returns nil,
  with both sub-configurations nil, when both keys are absent or \<^verbatim>\<open>null\<close>, \<^verbatim>\<open>id\<close> and
  \<^verbatim>\<open>srcName\<close> are strings, each of \<^verbatim>\<open>addr\<close>, \<^verbatim>\<open>addrv6\<close>, \<^verbatim>\<open>macAddress\<close> is absent or
  parses, and \<^verbatim>\<open>portMapping\<close> is absent.
\<close>

lemma decode_null_sub_configuration:
  assumes obj: "json_Unmarshal_map b = Inr nMap"
  shows "(null_or_absent nMap ''config'' \<longrightarrow> decode_config L nMap ep = Ok (ep\<lparr>config := None\<rparr>)) \<and>
         (null_or_absent nMap ''containerConfiguration'' \<longrightarrow>
            decode_containerConfig nMap ep = Ok (ep\<lparr>containerConfig := None\<rparr>)) \<and>
         (lookup nMap ''config'' = GoMap [] \<longrightarrow>
            decode_config L nMap ep = Ok (ep\<lparr>config := Some ec_zero\<rparr>)) \<and>
         (lookup nMap ''id'' = GoString i \<and> lookup nMap ''srcName'' = GoString sn \<and>
          accepts (ParseCIDR L) nMap ''addr'' \<and> accepts (ParseCIDR L) nMap ''addrv6'' \<and>
          accepts (ParseMAC L) nMap ''macAddress'' \<and>
          null_or_absent nMap ''config'' \<and> null_or_absent nMap ''containerConfiguration'' \<and>
          \<not> has_key nMap ''portMapping'' \<longrightarrow>
            (\<exists>ep'. UnmarshalJSON L ep b = Ok ep' \<and> config ep' = None \<and> containerConfig ep' = None))"
proof (intro conjI impI)
  show "decode_config L nMap ep = Ok (ep\<lparr>config := None\<rparr>)" if "null_or_absent nMap ''config''"
    using that by (rule decode_config_null_or_absent)
  show "decode_containerConfig nMap ep = Ok (ep\<lparr>containerConfig := None\<rparr>)"
    if "null_or_absent nMap ''containerConfiguration''"
    using that by (rule decode_containerConfig_null_or_absent)
  show "decode_config L nMap ep = Ok (ep\<lparr>config := Some ec_zero\<rparr>)"
    if "lookup nMap ''config'' = GoMap []"
    using that by (rule decode_config_empty_object)
next
  assume h: "lookup nMap ''id'' = GoString i \<and> lookup nMap ''srcName'' = GoString sn \<and>
          accepts (ParseCIDR L) nMap ''addr'' \<and> accepts (ParseCIDR L) nMap ''addrv6'' \<and>
          accepts (ParseMAC L) nMap ''macAddress'' \<and>
          null_or_absent nMap ''config'' \<and> null_or_absent nMap ''containerConfiguration'' \<and>
          \<not> has_key nMap ''portMapping''"
  let ?ep2 = "ep\<lparr>ep_id := i, srcName := sn\<rparr>"
  obtain x where x: "decode_addr L nMap ?ep2 = Ok (?ep2\<lparr>addr := x\<rparr>)"
    using decode_addr_accepts h by blast
  obtain y where y: "decode_addrv6 L nMap (?ep2\<lparr>addr := x\<rparr>) = Ok (?ep2\<lparr>addr := x, addrv6 := y\<rparr>)"
    using decode_addrv6_accepts h by blast
  obtain z where z: "decode_macAddress L nMap (?ep2\<lparr>addr := x, addrv6 := y\<rparr>)
      = Ok (?ep2\<lparr>addr := x, addrv6 := y, macAddress := z\<rparr>)"
    using decode_macAddress_accepts h by blast
  show "\<exists>ep'. UnmarshalJSON L ep b = Ok ep' \<and> config ep' = None \<and> containerConfig ep' = None"
    using h
    by (simp add: UnmarshalJSON_def obj decode_id_GoString decode_srcName_GoString x y z
        decode_config_null_or_absent decode_containerConfig_null_or_absent
        decode_portMapping_absent)
qed

text \<open>
  \<^verbatim>\<open>containerConfiguration.UnmarshalJSON\<close> panics on every JSON object that
  \<^verbatim>\<open>json.Marshal\<close> writes for a map: whatever \<^verbatim>\<open>json.Unmarshal\<close> stored under
  \<^verbatim>\<open>ParentEndpoints\<close>, and the nil of an absent key, is not a \<^verbatim>\<open>[]string\<close>.
\<close>

lemma cc_UnmarshalJSON_object_panics:
  "cc_UnmarshalJSON cf (Some (encode (GoMap m))) = Panic"
proof -
  have "assert_strings (lookup [] k) = None" for k
    by (simp add: lookup_def assert_strings_def)
  then have "assert_strings (lookup (decode_members (encode_members m) []) ''ParentEndpoints'') = None"
    by (rule assert_strings_decode_members)
  then show ?thesis
    by (simp add: cc_UnmarshalJSON_def json_Unmarshal_map_def encode_in_range
        cc_decode_ParentEndpoints_def)
qed

lemma decode_containerConfig_object_panics:
  "lookup nMap ''containerConfiguration'' = GoMap m \<Longrightarrow> decode_containerConfig nMap ep = Panic"
  using cc_UnmarshalJSON_object_panics [of cc_zero m]
  by (simp add: decode_containerConfig_def json_Marshal_def json_Unmarshal_ptr_def)

text \<open>
  Claim C9. The claim asks that \<^verbatim>\<open>UnmarshalJSON\<close> does not crash and succeeds when
  \<^verbatim>\<open>config\<close> or \<^verbatim>\<open>containerConfiguration\<close> is null or absent, tolerating an empty
  object. The code panics on an object under \<^verbatim>\<open>containerConfiguration\<close>, the empty one
  included: for every input that \<^verbatim>\<open>json.Unmarshal\<close> decodes into the map, whose \<^verbatim>\<open>id\<close>
  and \<^verbatim>\<open>srcName\<close> are strings, whose \<^verbatim>\<open>addr\<close>, \<^verbatim>\<open>addrv6\<close> and \<^verbatim>\<open>macAddress\<close> are each
  absent or parse, whose \<^verbatim>\<open>config\<close> is null or absent, and whose
  \<^verbatim>\<open>containerConfiguration\<close> is an object, \<^verbatim>\<open>UnmarshalJSON\<close> panics, at the unchecked
  assertion \<^verbatim>\<open>cMap["ParentEndpoints"].([]string)\<close>.
\<close>

theorem UnmarshalJSON_containerConfiguration_object_panics:
  assumes "json_Unmarshal_map b = Inr nMap"
    and "lookup nMap ''id'' = GoString i" and "lookup nMap ''srcName'' = GoString sn"
    and "accepts (ParseCIDR L) nMap ''addr''" and "accepts (ParseCIDR L) nMap ''addrv6''"
    and "accepts (ParseMAC L) nMap ''macAddress''"
    and "null_or_absent nMap ''config''"
    and "lookup nMap ''containerConfiguration'' = GoMap m"
  shows "UnmarshalJSON L ep b = Panic"
proof -
  let ?ep2 = "ep\<lparr>ep_id := i, srcName := sn\<rparr>"
  obtain x where x: "decode_addr L nMap ?ep2 = Ok (?ep2\<lparr>addr := x\<rparr>)"
    using decode_addr_accepts assms(4) by blast
  obtain y where y: "decode_addrv6 L nMap (?ep2\<lparr>addr := x\<rparr>) = Ok (?ep2\<lparr>addr := x, addrv6 := y\<rparr>)"
    using decode_addrv6_accepts assms(5) by blast
  obtain z where z: "decode_macAddress L nMap (?ep2\<lparr>addr := x, addrv6 := y\<rparr>)
      = Ok (?ep2\<lparr>addr := x, addrv6 := y, macAddress := z\<rparr>)"
    using decode_macAddress_accepts assms(6) by blast
  show ?thesis
    by (simp add: UnmarshalJSON_def assms(1) decode_id_GoString [OF assms(2)]
        decode_srcName_GoString [OF assms(3)] x y z
        decode_config_null_or_absent [OF assms(7)]
        decode_containerConfig_object_panics [OF assms(8)])
qed

theorem UnmarshalJSON_containerConfiguration_object_panics_witness:
  "UnmarshalJSON sample_lib (ep_zero None)
     (Some (JObject [(''id'', JString ''ep1''), (''srcName'', JString ''veth0''),
                     (''containerConfiguration'', JObject [])])) = Panic"
proof -
  let ?m = "[(''id'', GoString ''ep1''), (''srcName'', GoString ''veth0''),
             (''containerConfiguration'', GoMap [])]"
  have m: "json_Unmarshal_map
             (Some (JObject [(''id'', JString ''ep1''), (''srcName'', JString ''veth0''),
                             (''containerConfiguration'', JObject [])])) = Inr ?m"
    by (simp add: json_Unmarshal_map_def)
  have k: "lookup ?m ''id'' = GoString ''ep1''" "lookup ?m ''srcName'' = GoString ''veth0''"
    "lookup ?m ''containerConfiguration'' = GoMap []"
    by (simp_all add: lookup_def)
  have a: "accepts (ParseCIDR sample_lib) ?m ''addr''" "accepts (ParseCIDR sample_lib) ?m ''addrv6''"
    "accepts (ParseMAC sample_lib) ?m ''macAddress''"
    by (simp_all add: accepts_def has_key_def)
  have n: "null_or_absent ?m ''config''"
    by (simp add: null_or_absent_def lookup_def)
  show ?thesis
    by (rule UnmarshalJSON_containerConfiguration_object_panics [OF m k(1) k(2) a n k(3)])
qed

section \<open>Decoding what was encoded: results\<close>

text \<open>
  With every optional field nil, the record decoded from the encoding of \<open>ep\<close> is \<open>ep\<close>
  (the version index and the existence flag apart, which are not encoded).
\<close>

lemma roundtrip_all_absent:
  assumes "addr ep = None" "addrv6 ep = None" "macAddress ep = None" "config ep = None"
    "containerConfig ep = None" "portMapping ep = None"
  shows "roundtrip L ep = Ok (ep\<lparr>dbIndex := 0, dbExists := False\<rparr>)"
  using assms
  by (simp add: roundtrip_def MarshalJSON_def json_Marshal_map_def nMap_of_def len_def
      marshal_value_def UnmarshalJSON_def json_Unmarshal_map_def decode_id_def decode_srcName_def
      decode_addr_def decode_addrv6_def decode_macAddress_def decode_config_def
      decode_containerConfig_def decode_portMapping_def json_Marshal_def json_Unmarshal_ptr_def
      lookup_def has_key_def assert_string_def New_def ep_zero_def)

text \<open>
  A container configuration alone makes the decoder panic on the encoder's output:
  \<^verbatim>\<open>cMap["ParentEndpoints"].([]string)\<close> is applied to the \<^verbatim>\<open>[]interface{}\<close> that
  \<^verbatim>\<open>json.Unmarshal\<close> stores for an array (or to the nil it stores for \<^verbatim>\<open>null\<close>).
\<close>

lemma roundtrip_containerConfig_panics:
  assumes "addr ep = None" "addrv6 ep = None" "macAddress ep = None" "config ep = None"
    "containerConfig ep = Some cf" "portMapping ep = None"
  shows "roundtrip L ep = Panic"
  using assms
  by (simp add: roundtrip_def MarshalJSON_def json_Marshal_map_def nMap_of_def len_def
      marshal_value_def marshaler_def cc_MarshalJSON_def cc_cMap_def
      UnmarshalJSON_def json_Unmarshal_map_def decode_id_def decode_srcName_def
      decode_addr_def decode_addrv6_def decode_macAddress_def decode_config_def
      decode_containerConfig_def decode_portMapping_def json_Marshal_def json_Unmarshal_ptr_def
      cc_UnmarshalJSON_def cc_decode_ParentEndpoints_def assert_strings_def
      overflows_list_strings overflows_list_encode
      lookup_def has_key_def assert_string_def New_def ep_zero_def split: option.splits)

text \<open>
  Claim C1. The claim asks that a record with every optional field present is decoded
  from its own encoding into an equal record. On the sample endpoint with every
  optional field present, \<^verbatim>\<open>MarshalJSON\<close> succeeds and \<^verbatim>\<open>UnmarshalJSON\<close> of the bytes it
  returns panics.
\<close>

theorem roundtrip_all_present_panics:
  "roundtrip sample_lib sample_full = Panic"
  by code_simp

section \<open>CopyTo on the heap\<close>

subsection \<open>Extensions of the heap\<close>

lemma extends_refl: "extends d h h"
  by (simp add: extends_def)

lemma extends_trans: "extends d h h1 \<Longrightarrow> extends d h1 h2 \<Longrightarrow> extends d h h2"
  by (auto simp: extends_def)

lemma ipnet_cells_extends:
  "extends d h h' \<Longrightarrow> list_all (\<lambda>c. ref_of c < next_ref h) (ipnet_cells h p) \<Longrightarrow>
   ipnet_cells h' p = ipnet_cells h p"
  by (auto simp: extends_def ipnet_cells_def split: option.splits)

lemma epc_cells_extends:
  "extends d h h' \<Longrightarrow> list_all (\<lambda>c. ref_of c < next_ref h) (epc_cells h p) \<Longrightarrow>
   epc_cells h' p = epc_cells h p"
  by (auto simp: extends_def epc_cells_def split: option.splits)

lemma cc_cells_extends:
  "extends d h h' \<Longrightarrow> list_all (\<lambda>c. ref_of c < next_ref h) (cc_cells h p) \<Longrightarrow>
   cc_cells h' p = cc_cells h p"
  by (auto simp: extends_def cc_cells_def split: option.splits)

lemma fresh_in_mono:
  "fresh_in b h cs \<Longrightarrow> b' \<le> b \<Longrightarrow> next_ref h \<le> next_ref h' \<Longrightarrow> fresh_in b' h' cs"
  by (auto simp: fresh_in_def list_all_iff)

lemma fresh_in_allocated: "fresh_in b h cs \<Longrightarrow> list_all (\<lambda>c. ref_of c < next_ref h) cs"
  by (auto simp: fresh_in_def list_all_iff)

subsection \<open>The statements of CopyTo, one by one\<close>

text \<open>
  Each statement extends the heap, assigns one field of the destination, and leaves in
  that field only storage that it has allocated itself.
\<close>

lemma copy_id_step:
  "extends d h (copy_id s d h)"
  "\<exists>v. ep_objs (copy_id s d h) d = (ep_objs h d)\<lparr>o_id := v\<rparr>"
  by (auto simp: copy_id_def upd_ep_def extends_def)

lemma copy_srcName_step:
  "extends d h (copy_srcName s d h)"
  "\<exists>v. ep_objs (copy_srcName s d h) d = (ep_objs h d)\<lparr>o_srcName := v\<rparr>"
  by (auto simp: copy_srcName_def upd_ep_def extends_def)

lemma GetMacCopy_step:
  "GetMacCopy from h = (m, h') \<Longrightarrow>
   extends d h h' \<and> ep_objs h' = ep_objs h \<and> fresh_in (next_ref h) h' (slice_cells ByteArr m)"
  by (auto simp: GetMacCopy_def new_bytes_def extends_def fresh_in_def slice_cells_def
      split: option.splits)

lemma GetIPNetCopy_step:
  "GetIPNetCopy from h = (a, h') \<Longrightarrow>
   extends d h h' \<and> ep_objs h' = ep_objs h \<and> fresh_in (next_ref h) h' (ipnet_cells h' a)"
  by (auto simp: GetIPNetCopy_def GetMacCopy_def new_bytes_def new_ipnet_def extends_def fresh_in_def
      slice_cells_def ipnet_cells_def split: option.splits)


lemma copy_addr_step:
  "extends d h (copy_addr s d h)"
  "\<exists>v. ep_objs (copy_addr s d h) d = (ep_objs h d)\<lparr>o_addr := v\<rparr>"
  "fresh_in (next_ref h) (copy_addr s d h)
     (ipnet_cells (copy_addr s d h) (o_addr (ep_objs (copy_addr s d h) d)))"
proof -
  obtain a h' where g: "GetIPNetCopy (o_addr (ep_objs h s)) h = (a, h')"
    by (cases "GetIPNetCopy (o_addr (ep_objs h s)) h") blast
  note st = GetIPNetCopy_step [OF g, of d]
  have eq: "copy_addr s d h = upd_ep d (\<lambda>x. x\<lparr>o_addr := a\<rparr>) h'"
    by (simp add: copy_addr_def g)
  show "extends d h (copy_addr s d h)"
    using st by (auto simp: eq upd_ep_def extends_def)
  show "\<exists>v. ep_objs (copy_addr s d h) d = (ep_objs h d)\<lparr>o_addr := v\<rparr>"
    using st by (auto simp: eq upd_ep_def)
  show "fresh_in (next_ref h) (copy_addr s d h)
     (ipnet_cells (copy_addr s d h) (o_addr (ep_objs (copy_addr s d h) d)))"
    using st by (simp add: eq upd_ep_def fresh_in_def ipnet_cells_def split: option.splits)
qed

lemma copy_addrv6_step:
  "extends d h (copy_addrv6 s d h)"
  "\<exists>v. ep_objs (copy_addrv6 s d h) d = (ep_objs h d)\<lparr>o_addrv6 := v\<rparr>"
  "fresh_in (next_ref h) (copy_addrv6 s d h)
     (ipnet_cells (copy_addrv6 s d h) (o_addrv6 (ep_objs (copy_addrv6 s d h) d)))"
proof -
  obtain a h' where g: "GetIPNetCopy (o_addrv6 (ep_objs h s)) h = (a, h')"
    by (cases "GetIPNetCopy (o_addrv6 (ep_objs h s)) h") blast
  note st = GetIPNetCopy_step [OF g, of d]
  have eq: "copy_addrv6 s d h = upd_ep d (\<lambda>x. x\<lparr>o_addrv6 := a\<rparr>) h'"
    by (simp add: copy_addrv6_def g)
  show "extends d h (copy_addrv6 s d h)"
    using st by (auto simp: eq upd_ep_def extends_def)
  show "\<exists>v. ep_objs (copy_addrv6 s d h) d = (ep_objs h d)\<lparr>o_addrv6 := v\<rparr>"
    using st by (auto simp: eq upd_ep_def)
  show "fresh_in (next_ref h) (copy_addrv6 s d h)
     (ipnet_cells (copy_addrv6 s d h) (o_addrv6 (ep_objs (copy_addrv6 s d h) d)))"
    using st by (simp add: eq upd_ep_def fresh_in_def ipnet_cells_def split: option.splits)
qed

lemma copy_macAddress_step:
  "extends d h (copy_macAddress s d h)"
  "\<exists>v. ep_objs (copy_macAddress s d h) d = (ep_objs h d)\<lparr>o_macAddress := v\<rparr>"
  "fresh_in (next_ref h) (copy_macAddress s d h)
     (slice_cells ByteArr (o_macAddress (ep_objs (copy_macAddress s d h) d)))"
proof -
  obtain a h' where g: "GetMacCopy (o_macAddress (ep_objs h s)) h = (a, h')"
    by (cases "GetMacCopy (o_macAddress (ep_objs h s)) h") blast
  note st = GetMacCopy_step [OF g, of d]
  have eq: "copy_macAddress s d h = upd_ep d (\<lambda>x. x\<lparr>o_macAddress := a\<rparr>) h'"
    by (simp add: copy_macAddress_def g)
  show "extends d h (copy_macAddress s d h)"
    using st by (auto simp: eq upd_ep_def extends_def)
  show "\<exists>v. ep_objs (copy_macAddress s d h) d = (ep_objs h d)\<lparr>o_macAddress := v\<rparr>"
    using st by (auto simp: eq upd_ep_def)
  show "fresh_in (next_ref h) (copy_macAddress s d h)
     (slice_cells ByteArr (o_macAddress (ep_objs (copy_macAddress s d h) d)))"
    using st by (simp add: eq upd_ep_def fresh_in_def)
qed

lemma portMapping_step:
  "extends d h (copy_portMapping s d (make_portMapping Z s d h))"
  "\<exists>v. ep_objs (copy_portMapping s d (make_portMapping Z s d h)) d = (ep_objs h d)\<lparr>o_portMapping := v\<rparr>"
  "fresh_in (next_ref h) (copy_portMapping s d (make_portMapping Z s d h))
     (slice_cells PBArr (o_portMapping (ep_objs (copy_portMapping s d (make_portMapping Z s d h)) d)))"
  by (auto simp: copy_portMapping_def make_portMapping_def new_pbs_def upd_ep_def extends_def
      fresh_in_def slice_cells_def)

lemma epc_CopyTo_new:
  assumes "p = next_ref h0" "next_ref h = Suc p" 
      and "epc_objs h p = \<lparr>o_MacAddress = None, o_PortBindings = None, o_ExposedPorts = None\<rparr>"
  shows "extends d h0 h \<Longrightarrow> extends d h0 (epc_CopyTo Z epc p h)"
    and "ep_objs (epc_CopyTo Z epc p h) = ep_objs h"
    and "fresh_in p (epc_CopyTo Z epc p h) (epc_cells (epc_CopyTo Z epc p h) (Some p))"
  using assms
  by (auto simp: epc_CopyTo_def epc_copy_MacAddress_def epc_make_PortBindings_def
      epc_copy_PortBindings_def epc_make_ExposedPorts_def epc_copy_ExposedPorts_def
      GetMacCopy_def new_bytes_def new_pbs_def new_tps_def upd_epc_def extends_def
      fresh_in_def epc_cells_def slice_cells_def split: option.splits)


lemma copy_config_step:
  "extends d h (copy_config Z s d h)"
  "\<exists>v. ep_objs (copy_config Z s d h) d = (ep_objs h d)\<lparr>o_config := v\<rparr>"
  "o_config (ep_objs h s) \<noteq> None \<Longrightarrow>
   fresh_in (next_ref h) (copy_config Z s d h)
     (epc_cells (copy_config Z s d h) (o_config (ep_objs (copy_config Z s d h) d)))"
  "o_config (ep_objs h s) = None \<Longrightarrow> copy_config Z s d h = h"
proof -
  let ?p = "next_ref h"
  let ?z = "\<lparr>o_MacAddress = None, o_PortBindings = None, o_ExposedPorts = None\<rparr>"
  let ?h2 = "upd_ep d (\<lambda>x. x\<lparr>o_config := Some ?p\<rparr>) (snd (new_epc ?z h))"
  have h2: "next_ref ?h2 = Suc ?p" "epc_objs ?h2 ?p = ?z" "extends d h ?h2"
    "ep_objs ?h2 d = (ep_objs h d)\<lparr>o_config := Some ?p\<rparr>"
    by (auto simp: new_epc_def upd_ep_def extends_def)
  note new1 = epc_CopyTo_new(1) [OF refl h2(1) h2(2)]
  note new2 = epc_CopyTo_new(2) [OF refl h2(1) h2(2)]
  note new3 = epc_CopyTo_new(3) [OF refl h2(1) h2(2)]
  have shape: "copy_config Z s d h = h \<and> o_config (ep_objs h s) = None
      \<or> copy_config Z s d h = ?h2 \<and> o_config (ep_objs h s) \<noteq> None
      \<or> (\<exists>epc. copy_config Z s d h = epc_CopyTo Z epc ?p ?h2) \<and> o_config (ep_objs h s) \<noteq> None"
    by (auto simp: copy_config_def new_epc_def Let_def split: option.splits)
  show "extends d h (copy_config Z s d h)"
    using shape h2(3) new1 extends_refl by metis
  show "\<exists>v. ep_objs (copy_config Z s d h) d = (ep_objs h d)\<lparr>o_config := v\<rparr>"
    using shape h2(4) new2 by (metis (no_types) ep_obj.surjective ep_obj.update_convs(6))
  show "fresh_in (next_ref h) (copy_config Z s d h)
     (epc_cells (copy_config Z s d h) (o_config (ep_objs (copy_config Z s d h) d)))"
    if "o_config (ep_objs h s) \<noteq> None"
  proof -
    from shape that consider "copy_config Z s d h = ?h2"
      | epc where "copy_config Z s d h = epc_CopyTo Z epc ?p ?h2"
      by blast
    then show ?thesis
    proof cases
      case 1
      then show ?thesis
        by (simp add: new_epc_def upd_ep_def fresh_in_def epc_cells_def slice_cells_def)
    next
      case 2
      then show ?thesis
        using new2 [of Z epc] new3 [of Z epc] h2(4) by simp
    qed
  qed
  show "copy_config Z s d h = h" if "o_config (ep_objs h s) = None"
    using that by (simp add: copy_config_def)
qed

lemma cc_CopyTo_new:
  assumes "p = next_ref h0" "next_ref h = Suc p"
      and "cc_objs h p = \<lparr>o_ParentEndpoints = None, o_ChildEndpoints = None\<rparr>"
  shows "extends d h0 h \<Longrightarrow> extends d h0 (cc_CopyTo cc p h)"
    and "ep_objs (cc_CopyTo cc p h) = ep_objs h"
    and "fresh_in p (cc_CopyTo cc p h) (cc_cells (cc_CopyTo cc p h) (Some p))"
  using assms
  by (auto simp: cc_CopyTo_def cc_make_ParentEndpoints_def cc_copy_ParentEndpoints_def
      cc_make_ChildEndpoints_def cc_copy_ChildEndpoints_def new_strings_def upd_cc_def
      extends_def fresh_in_def cc_cells_def slice_cells_def split: option.splits)

lemma copy_containerConfig_step:
  "extends d h (copy_containerConfig s d h)"
  "\<exists>v. ep_objs (copy_containerConfig s d h) d = (ep_objs h d)\<lparr>o_containerConfig := v\<rparr>"
  "o_containerConfig (ep_objs h s) \<noteq> None \<Longrightarrow>
   fresh_in (next_ref h) (copy_containerConfig s d h)
     (cc_cells (copy_containerConfig s d h)
        (o_containerConfig (ep_objs (copy_containerConfig s d h) d)))"
  "o_containerConfig (ep_objs h s) = None \<Longrightarrow> copy_containerConfig s d h = h"
proof -
  let ?p = "next_ref h"
  let ?z = "\<lparr>o_ParentEndpoints = None, o_ChildEndpoints = None\<rparr>"
  let ?h2 = "upd_ep d (\<lambda>x. x\<lparr>o_containerConfig := Some ?p\<rparr>) (snd (new_cc ?z h))"
  have h2: "next_ref ?h2 = Suc ?p" "cc_objs ?h2 ?p = ?z" "extends d h ?h2"
    "ep_objs ?h2 d = (ep_objs h d)\<lparr>o_containerConfig := Some ?p\<rparr>"
    by (auto simp: new_cc_def upd_ep_def extends_def)
  note new1 = cc_CopyTo_new(1) [OF refl h2(1) h2(2)]
  note new2 = cc_CopyTo_new(2) [OF refl h2(1) h2(2)]
  note new3 = cc_CopyTo_new(3) [OF refl h2(1) h2(2)]
  have shape: "copy_containerConfig s d h = h \<and> o_containerConfig (ep_objs h s) = None
      \<or> copy_containerConfig s d h = ?h2 \<and> o_containerConfig (ep_objs h s) \<noteq> None
      \<or> (\<exists>cc. copy_containerConfig s d h = cc_CopyTo cc ?p ?h2)
          \<and> o_containerConfig (ep_objs h s) \<noteq> None"
    by (auto simp: copy_containerConfig_def new_cc_def Let_def split: option.splits)
  show "extends d h (copy_containerConfig s d h)"
    using shape h2(3) new1 extends_refl by metis
  show "\<exists>v. ep_objs (copy_containerConfig s d h) d = (ep_objs h d)\<lparr>o_containerConfig := v\<rparr>"
    using shape h2(4) new2 by (metis (no_types) ep_obj.surjective ep_obj.update_convs(7))
  show "fresh_in (next_ref h) (copy_containerConfig s d h)
     (cc_cells (copy_containerConfig s d h)
        (o_containerConfig (ep_objs (copy_containerConfig s d h) d)))"
    if "o_containerConfig (ep_objs h s) \<noteq> None"
  proof -
    from shape that consider "copy_containerConfig s d h = ?h2"
      | cc where "copy_containerConfig s d h = cc_CopyTo cc ?p ?h2"
      by blast
    then show ?thesis
    proof cases
      case 1
      then show ?thesis
        by (simp add: new_cc_def upd_ep_def fresh_in_def cc_cells_def slice_cells_def)
    next
      case 2
      then show ?thesis
        using new2 [of cc] new3 [of cc] h2(4) by simp
    qed
  qed
  show "copy_containerConfig s d h = h" if "o_containerConfig (ep_objs h s) = None"
    using that by (simp add: copy_containerConfig_def)
qed

subsection \<open>What an extension of the heap preserves\<close>

lemma fresh_ipnet_extends:
  "extends d h h' \<Longrightarrow> fresh_in b h (ipnet_cells h p) \<Longrightarrow> fresh_in b h' (ipnet_cells h' p)"
  using ipnet_cells_extends [of d h h' p] fresh_in_allocated [of b h] fresh_in_mono [of b h _ b h']
  by (simp add: extends_def)

lemma fresh_epc_extends:
  "extends d h h' \<Longrightarrow> fresh_in b h (epc_cells h p) \<Longrightarrow> fresh_in b h' (epc_cells h' p)"
  using epc_cells_extends [of d h h' p] fresh_in_allocated [of b h] fresh_in_mono [of b h _ b h']
  by (simp add: extends_def)

lemma fresh_cc_extends:
  "extends d h h' \<Longrightarrow> fresh_in b h (cc_cells h p) \<Longrightarrow> fresh_in b h' (cc_cells h' p)"
  using cc_cells_extends [of d h h' p] fresh_in_allocated [of b h] fresh_in_mono [of b h _ b h']
  by (simp add: extends_def)

lemma fresh_slice_extends:
  "extends d h h' \<Longrightarrow> fresh_in b h (slice_cells K p) \<Longrightarrow> fresh_in b h' (slice_cells K p)"
  using fresh_in_mono [of b h _ b h'] by (simp add: extends_def)

lemma allocated_parts:
  assumes "allocated h e"
  shows "list_all (\<lambda>c. ref_of c < next_ref h) (epc_cells h (o_config (ep_objs h e)))"
    and "list_all (\<lambda>c. ref_of c < next_ref h) (cc_cells h (o_containerConfig (ep_objs h e)))"
    and "list_all (\<lambda>c. ref_of c < next_ref h) (ipnet_cells h (o_addr (ep_objs h e)))"
    and "list_all (\<lambda>c. ref_of c < next_ref h) (ipnet_cells h (o_addrv6 (ep_objs h e)))"
    and "list_all (\<lambda>c. ref_of c < next_ref h) (slice_cells ByteArr (o_macAddress (ep_objs h e)))"
    and "list_all (\<lambda>c. ref_of c < next_ref h) (slice_cells PBArr (o_portMapping (ep_objs h e)))"
    and "e < next_ref h"
  using assms by (simp_all add: allocated_def footprint_def)

lemma footprint_extends:
  assumes "extends d h h'" "e \<noteq> d" "allocated h e"
  shows "footprint h' e = footprint h e"
proof -
  have o: "ep_objs h' e = ep_objs h e"
    using assms(1,2) by (simp add: extends_def)
  show ?thesis
    using allocated_parts [OF assms(3)] assms(1)
    by (simp add: footprint_def o ipnet_cells_extends epc_cells_extends cc_cells_extends)
qed

subsection \<open>The value of an endpoint depends on its storage only\<close>

lemma load_slice_bytes_same:
  "list_all (same_cell h h') (slice_cells ByteArr p) \<Longrightarrow>
   load_slice (byte_arrays h') p = load_slice (byte_arrays h) p"
  by (cases p) (simp_all add: slice_cells_def load_slice_def)

lemma load_slice_pbs_same:
  "list_all (same_cell h h') (slice_cells PBArr p) \<Longrightarrow>
   load_slice (pb_arrays h') p = load_slice (pb_arrays h) p"
  by (cases p) (simp_all add: slice_cells_def load_slice_def)

lemma load_slice_tps_same:
  "list_all (same_cell h h') (slice_cells TPArr p) \<Longrightarrow>
   load_slice (tp_arrays h') p = load_slice (tp_arrays h) p"
  by (cases p) (simp_all add: slice_cells_def load_slice_def)

lemma load_slice_strings_same:
  "list_all (same_cell h h') (slice_cells StrArr p) \<Longrightarrow>
   load_slice (string_arrays h') p = load_slice (string_arrays h) p"
  by (cases p) (simp_all add: slice_cells_def load_slice_def)

lemma load_ipnet_same:
  assumes "list_all (same_cell h h') (ipnet_cells h p)"
  shows "load_ipnet h' p = load_ipnet h p"
proof (cases p)
  case None
  then show ?thesis by (simp add: load_ipnet_def)
next
  case (Some r)
  with assms have o: "ipnet_objs h' r = ipnet_objs h r"
    and 1: "list_all (same_cell h h') (slice_cells ByteArr (o_IP (ipnet_objs h r)))"
    and 2: "list_all (same_cell h h') (slice_cells ByteArr (o_Mask (ipnet_objs h r)))"
    by (simp_all add: ipnet_cells_def)
  show ?thesis
    by (simp add: Some load_ipnet_def o load_slice_bytes_same [OF 1] load_slice_bytes_same [OF 2])
qed

lemma load_epc_same:
  assumes "list_all (same_cell h h') (epc_cells h p)"
  shows "load_epc h' p = load_epc h p"
proof (cases p)
  case None
  then show ?thesis by (simp add: load_epc_def)
next
  case (Some r)
  with assms have o: "epc_objs h' r = epc_objs h r"
    and 1: "list_all (same_cell h h') (slice_cells ByteArr (o_MacAddress (epc_objs h r)))"
    and 2: "list_all (same_cell h h') (slice_cells PBArr (o_PortBindings (epc_objs h r)))"
    and 3: "list_all (same_cell h h') (slice_cells TPArr (o_ExposedPorts (epc_objs h r)))"
    by (simp_all add: epc_cells_def)
  show ?thesis
    by (simp add: Some load_epc_def o load_slice_bytes_same [OF 1] load_slice_pbs_same [OF 2]
        load_slice_tps_same [OF 3])
qed

lemma load_cc_same:
  assumes "list_all (same_cell h h') (cc_cells h p)"
  shows "load_cc h' p = load_cc h p"
proof (cases p)
  case None
  then show ?thesis by (simp add: load_cc_def)
next
  case (Some r)
  with assms have o: "cc_objs h' r = cc_objs h r"
    and 1: "list_all (same_cell h h') (slice_cells StrArr (o_ParentEndpoints (cc_objs h r)))"
    and 2: "list_all (same_cell h h') (slice_cells StrArr (o_ChildEndpoints (cc_objs h r)))"
    by (simp_all add: cc_cells_def)
  show ?thesis
    by (simp add: Some load_cc_def o load_slice_strings_same [OF 1] load_slice_strings_same [OF 2])
qed

lemma load_ep_same:
  assumes "list_all (same_cell h h') (footprint h e)"
  shows "load_ep h' e = load_ep h e"
proof -
  let ?x = "ep_objs h e"
  have o: "ep_objs h' e = ?x"
    using assms by (simp add: footprint_def)
  have 1: "load_ipnet h' (o_addr ?x) = load_ipnet h (o_addr ?x)"
    using assms by (intro load_ipnet_same) (simp add: footprint_def)
  have 2: "load_ipnet h' (o_addrv6 ?x) = load_ipnet h (o_addrv6 ?x)"
    using assms by (intro load_ipnet_same) (simp add: footprint_def)
  have 3: "load_slice (byte_arrays h') (o_macAddress ?x) = load_slice (byte_arrays h) (o_macAddress ?x)"
    using assms by (intro load_slice_bytes_same) (simp add: footprint_def)
  have 4: "load_epc h' (o_config ?x) = load_epc h (o_config ?x)"
    using assms by (intro load_epc_same) (simp add: footprint_def)
  have 5: "load_cc h' (o_containerConfig ?x) = load_cc h (o_containerConfig ?x)"
    using assms by (intro load_cc_same) (simp add: footprint_def)
  have 6: "load_slice (pb_arrays h') (o_portMapping ?x) = load_slice (pb_arrays h) (o_portMapping ?x)"
    using assms by (intro load_slice_pbs_same) (simp add: footprint_def)
  show ?thesis
    unfolding load_ep_def o 1 2 3 4 5 6 ..
qed

lemma extends_same_cell:
  "extends d h h' \<Longrightarrow> ref_of c < next_ref h \<Longrightarrow> c \<noteq> EpObj d \<Longrightarrow> same_cell h h' c"
  by (cases c) (simp_all add: extends_def)

lemma EpObj_notin_slice:
  "EpObj r \<notin> set (slice_cells ByteArr p)"
  "EpObj r \<notin> set (slice_cells PBArr p)"
  "EpObj r \<notin> set (slice_cells TPArr p)"
  "EpObj r \<notin> set (slice_cells StrArr p)"
  by (cases p; simp add: slice_cells_def)+

lemma EpObj_notin_parts:
  "EpObj r \<notin> set (ipnet_cells h p)"
  "EpObj r \<notin> set (epc_cells h p)"
  "EpObj r \<notin> set (cc_cells h p)"
  by (cases p; simp add: ipnet_cells_def epc_cells_def cc_cells_def EpObj_notin_slice)+

lemma EpObj_in_footprint: "EpObj r \<in> set (footprint h e) \<longleftrightarrow> r = e"
  by (simp add: footprint_def EpObj_notin_parts EpObj_notin_slice)

lemma load_ep_extends:
  assumes "extends d h h'" "e \<noteq> d" "allocated h e"
  shows "load_ep h' e = load_ep h e"
proof (rule load_ep_same)
  show "list_all (same_cell h h') (footprint h e)"
    unfolding list_all_iff
  proof
    fix c assume c: "c \<in> set (footprint h e)"
    then have "ref_of c < next_ref h"
      using assms(3) by (simp add: allocated_def list_all_iff)
    moreover have "c \<noteq> EpObj d"
    proof
      assume "c = EpObj d"
      with c have "EpObj d \<in> set (footprint h e)"
        by simp
      then have "d = e"
        by (simp only: EpObj_in_footprint)
      with assms(2) show False
        by simp
    qed
    ultimately show "same_cell h h' c"
      by (simp add: extends_same_cell [OF assms(1)])
  qed
qed

lemma load_ep_mutated:
  assumes "mutated_within cs h h'" "set cs \<inter> set (footprint h e) = {}"
  shows "load_ep h' e = load_ep h e"
proof (rule load_ep_same)
  show "list_all (same_cell h h') (footprint h e)"
    unfolding list_all_iff
  proof
    fix c assume "c \<in> set (footprint h e)"
    then have "c \<notin> set cs"
      using assms(2) by blast
    moreover have "c \<in> set cs \<or> same_cell h h' c"
      using assms(1) by (simp add: mutated_within_def)
    ultimately show "same_cell h h' c"
      by blast
  qed
qed

subsection \<open>The heap after CopyTo\<close>

lemma CopyTo_unfold:
  "CopyTo Z h s (EpPtr (Some d)) =
     Returns (None,
       copy_portMapping s d (make_portMapping Z s d (copy_containerConfig s d
         (copy_config Z s d (copy_macAddress s d (copy_addrv6 s d (copy_addr s d
           (copy_srcName s d (copy_id s d h)))))))))"
  by (simp add: CopyTo_def CopyTo_stmts_def)

lemma fresh_in_lower:
  "fresh_in b h cs \<Longrightarrow> b' \<le> b \<Longrightarrow> \<forall>c\<in>set cs. b' \<le> ref_of c"
  by (auto simp: fresh_in_def list_all_iff)

lemma CopyTo_heap:
  assumes sd: "s \<noteq> d" and As: "allocated h s" and Ad: "allocated h d"
  shows "\<exists>h'. CopyTo Z h s (EpPtr (Some d)) = Returns (None, h') \<and> extends d h h' \<and>
           (\<forall>c\<in>set (footprint h' d).
              c = EpObj d \<or> next_ref h \<le> ref_of c \<or> c \<in> set (kept_cells h s d))"
proof -
  define h1 where "h1 = copy_id s d h"
  define h2 where "h2 = copy_srcName s d h1"
  define h3 where "h3 = copy_addr s d h2"
  define h4 where "h4 = copy_addrv6 s d h3"
  define h5 where "h5 = copy_macAddress s d h4"
  define h6 where "h6 = copy_config Z s d h5"
  define h7 where "h7 = copy_containerConfig s d h6"
  define h8 where "h8 = copy_portMapping s d (make_portMapping Z s d h7)"
  have res: "CopyTo Z h s (EpPtr (Some d)) = Returns (None, h8)"
    by (simp add: CopyTo_unfold h1_def h2_def h3_def h4_def h5_def h6_def h7_def h8_def)
  have e1: "extends d h h1" and e2: "extends d h1 h2" and e3: "extends d h2 h3"
    and e4: "extends d h3 h4" and e5: "extends d h4 h5" and e6: "extends d h5 h6"
    and e7: "extends d h6 h7" and e8: "extends d h7 h8"
    unfolding h1_def h2_def h3_def h4_def h5_def h6_def h7_def h8_def
    by (rule copy_id_step copy_srcName_step copy_addr_step copy_addrv6_step copy_macAddress_step
        copy_config_step copy_containerConfig_step portMapping_step)+
  note e78 = e8
  note e68 = extends_trans [OF e7 e78]
  note e58 = extends_trans [OF e6 e68]
  note e48 = extends_trans [OF e5 e58]
  note e38 = extends_trans [OF e4 e48]
  note e02 = extends_trans [OF e1 e2]
  note e03 = extends_trans [OF e02 e3]
  note e04 = extends_trans [OF e03 e4]
  note e05 = extends_trans [OF e04 e5]
  note e06 = extends_trans [OF e05 e6]
  note e07 = extends_trans [OF e06 e7]
  note e08 = extends_trans [OF e07 e8]
  obtain v1 where x1: "ep_objs h1 d = (ep_objs h d)\<lparr>o_id := v1\<rparr>"
    unfolding h1_def using copy_id_step(2) by blast
  obtain v2 where x2: "ep_objs h2 d = (ep_objs h1 d)\<lparr>o_srcName := v2\<rparr>"
    unfolding h2_def using copy_srcName_step(2) by blast
  obtain v3 where x3: "ep_objs h3 d = (ep_objs h2 d)\<lparr>o_addr := v3\<rparr>"
    unfolding h3_def using copy_addr_step(2) by blast
  obtain v4 where x4: "ep_objs h4 d = (ep_objs h3 d)\<lparr>o_addrv6 := v4\<rparr>"
    unfolding h4_def using copy_addrv6_step(2) by blast
  obtain v5 where x5: "ep_objs h5 d = (ep_objs h4 d)\<lparr>o_macAddress := v5\<rparr>"
    unfolding h5_def using copy_macAddress_step(2) by blast
  obtain v6 where x6: "ep_objs h6 d = (ep_objs h5 d)\<lparr>o_config := v6\<rparr>"
    unfolding h6_def using copy_config_step(2) by blast
  obtain v7 where x7: "ep_objs h7 d = (ep_objs h6 d)\<lparr>o_containerConfig := v7\<rparr>"
    unfolding h7_def using copy_containerConfig_step(2) by blast
  obtain v8 where x8: "ep_objs h8 d = (ep_objs h7 d)\<lparr>o_portMapping := v8\<rparr>"
    unfolding h8_def using portMapping_step(2) by blast
  have fp8: "footprint h8 d =
      EpObj d # ipnet_cells h8 v3 @ ipnet_cells h8 v4 @ slice_cells ByteArr v5
        @ epc_cells h8 v6 @ cc_cells h8 v7 @ slice_cells PBArr v8"
    by (simp add: footprint_def x1 x2 x3 x4 x5 x6 x7 x8)
  have b2: "next_ref h \<le> next_ref h2" and b3: "next_ref h \<le> next_ref h3"
    and b4: "next_ref h \<le> next_ref h4" and b5: "next_ref h \<le> next_ref h5"
    and b6: "next_ref h \<le> next_ref h6" and b7: "next_ref h \<le> next_ref h7"
    using e02 e03 e04 e05 e06 e07 by (simp_all add: extends_def)
  have s5: "ep_objs h5 s = ep_objs h s" and s6: "ep_objs h6 s = ep_objs h s"
    using e05 e06 sd by (simp_all add: extends_def)
  \<comment> \<open>the two addresses and the hardware address\<close>
  have "fresh_in (next_ref h2) h3 (ipnet_cells h3 v3)"
    using copy_addr_step(3) [of h2 s d] by (simp add: h3_def [symmetric] x3)
  then have "fresh_in (next_ref h2) h8 (ipnet_cells h8 v3)"
    by (rule fresh_ipnet_extends [OF e38])
  then have g3: "\<forall>c\<in>set (ipnet_cells h8 v3). next_ref h \<le> ref_of c"
    using b2 by (rule fresh_in_lower)
  have "fresh_in (next_ref h3) h4 (ipnet_cells h4 v4)"
    using copy_addrv6_step(3) [of h3 s d] by (simp add: h4_def [symmetric] x4)
  then have "fresh_in (next_ref h3) h8 (ipnet_cells h8 v4)"
    by (rule fresh_ipnet_extends [OF e48])
  then have g4: "\<forall>c\<in>set (ipnet_cells h8 v4). next_ref h \<le> ref_of c"
    using b3 by (rule fresh_in_lower)
  have "fresh_in (next_ref h4) h5 (slice_cells ByteArr v5)"
    using copy_macAddress_step(3) [of h4 s d] by (simp add: h5_def [symmetric] x5)
  then have g5: "\<forall>c\<in>set (slice_cells ByteArr v5). next_ref h \<le> ref_of c"
    using b4 by (rule fresh_in_lower)
  \<comment> \<open>the port mappings\<close>
  have "fresh_in (next_ref h7) h8 (slice_cells PBArr v8)"
    using portMapping_step(3) [of h7 s d Z] by (simp add: h8_def [symmetric] x8)
  then have g8: "\<forall>c\<in>set (slice_cells PBArr v8). next_ref h \<le> ref_of c"
    using b7 by (rule fresh_in_lower)
  \<comment> \<open>the endpoint configuration: new, or the one kept\<close>
  have g6: "\<forall>c\<in>set (epc_cells h8 v6).
      next_ref h \<le> ref_of c \<or> c \<in> set (kept_cells h s d)"
  proof (cases "o_config (ep_objs h s) = None")
    case True
    then have "h6 = h5"
      using copy_config_step(4) [of h5 s Z d] by (simp add: h6_def s5)
    moreover have "o_config (ep_objs h6 d) = v6"
      by (simp add: x6)
    moreover have "o_config (ep_objs h5 d) = o_config (ep_objs h d)"
      by (simp add: x1 x2 x3 x4 x5)
    ultimately have v6: "v6 = o_config (ep_objs h d)"
      by simp
    have "epc_cells h8 v6 = epc_cells h v6"
      unfolding v6 by (rule epc_cells_extends [OF e08 allocated_parts(1) [OF Ad]])
    then show ?thesis
      by (simp add: kept_cells_def True v6)
  next
    case False
    then have "fresh_in (next_ref h5) h6 (epc_cells h6 v6)"
      using copy_config_step(3) [of h5 s Z d] by (simp add: h6_def [symmetric] s5 x6)
    then have "fresh_in (next_ref h5) h8 (epc_cells h8 v6)"
      by (rule fresh_epc_extends [OF e68])
    then have "\<forall>c\<in>set (epc_cells h8 v6). next_ref h \<le> ref_of c"
      using b5 by (rule fresh_in_lower)
    then show ?thesis by blast
  qed
  \<comment> \<open>the container configuration: new, or the one kept\<close>
  have g7: "\<forall>c\<in>set (cc_cells h8 v7).
      next_ref h \<le> ref_of c \<or> c \<in> set (kept_cells h s d)"
  proof (cases "o_containerConfig (ep_objs h s) = None")
    case True
    then have "h7 = h6"
      using copy_containerConfig_step(4) [of h6 s d] by (simp add: h7_def s6)
    moreover have "o_containerConfig (ep_objs h7 d) = v7"
      by (simp add: x7)
    moreover have "o_containerConfig (ep_objs h6 d) = o_containerConfig (ep_objs h d)"
      by (simp add: x1 x2 x3 x4 x5 x6)
    ultimately have v7: "v7 = o_containerConfig (ep_objs h d)"
      by simp
    have "cc_cells h8 v7 = cc_cells h v7"
      unfolding v7 by (rule cc_cells_extends [OF e08 allocated_parts(2) [OF Ad]])
    then show ?thesis
      by (simp add: kept_cells_def True v7)
  next
    case False
    then have "fresh_in (next_ref h6) h7 (cc_cells h7 v7)"
      using copy_containerConfig_step(3) [of h6 s d] by (simp add: h7_def [symmetric] s6 x7)
    then have "fresh_in (next_ref h6) h8 (cc_cells h8 v7)"
      by (rule fresh_cc_extends [OF e78])
    then have "\<forall>c\<in>set (cc_cells h8 v7). next_ref h \<le> ref_of c"
      using b6 by (rule fresh_in_lower)
    then show ?thesis by blast
  qed
  have "\<forall>c\<in>set (footprint h8 d).
      c = EpObj d \<or> next_ref h \<le> ref_of c \<or> c \<in> set (kept_cells h s d)"
    unfolding fp8 using g3 g4 g5 g6 g7 g8 by auto
  with res e08 show ?thesis
    by blast
qed

lemma CopyTo_kept:
  "\<exists>h'. CopyTo Z h s (EpPtr (Some d)) = Returns (None, h') \<and> extends d h h' \<and>
     (o_config (ep_objs h s) = None \<longrightarrow> o_config (ep_objs h' d) = o_config (ep_objs h d)) \<and>
     (o_containerConfig (ep_objs h s) = None \<longrightarrow>
        o_containerConfig (ep_objs h' d) = o_containerConfig (ep_objs h d))"
proof -
  define h1 where "h1 = copy_id s d h"
  define h2 where "h2 = copy_srcName s d h1"
  define h3 where "h3 = copy_addr s d h2"
  define h4 where "h4 = copy_addrv6 s d h3"
  define h5 where "h5 = copy_macAddress s d h4"
  define h6 where "h6 = copy_config Z s d h5"
  define h7 where "h7 = copy_containerConfig s d h6"
  define h8 where "h8 = copy_portMapping s d (make_portMapping Z s d h7)"
  have res: "CopyTo Z h s (EpPtr (Some d)) = Returns (None, h8)"
    by (simp add: CopyTo_unfold h1_def h2_def h3_def h4_def h5_def h6_def h7_def h8_def)
  have e1: "extends d h h1" and e2: "extends d h1 h2" and e3: "extends d h2 h3"
    and e4: "extends d h3 h4" and e5: "extends d h4 h5" and e6: "extends d h5 h6"
    and e7: "extends d h6 h7" and e8: "extends d h7 h8"
    unfolding h1_def h2_def h3_def h4_def h5_def h6_def h7_def h8_def
    by (rule copy_id_step copy_srcName_step copy_addr_step copy_addrv6_step copy_macAddress_step
        copy_config_step copy_containerConfig_step portMapping_step)+
  note e05 = extends_trans [OF extends_trans [OF extends_trans [OF extends_trans [OF e1 e2] e3] e4] e5]
  note e06 = extends_trans [OF e05 e6]
  note e08 = extends_trans [OF extends_trans [OF e06 e7] e8]
  obtain v1 where x1: "ep_objs h1 d = (ep_objs h d)\<lparr>o_id := v1\<rparr>"
    unfolding h1_def using copy_id_step(2) by blast
  obtain v2 where x2: "ep_objs h2 d = (ep_objs h1 d)\<lparr>o_srcName := v2\<rparr>"
    unfolding h2_def using copy_srcName_step(2) by blast
  obtain v3 where x3: "ep_objs h3 d = (ep_objs h2 d)\<lparr>o_addr := v3\<rparr>"
    unfolding h3_def using copy_addr_step(2) by blast
  obtain v4 where x4: "ep_objs h4 d = (ep_objs h3 d)\<lparr>o_addrv6 := v4\<rparr>"
    unfolding h4_def using copy_addrv6_step(2) by blast
  obtain v5 where x5: "ep_objs h5 d = (ep_objs h4 d)\<lparr>o_macAddress := v5\<rparr>"
    unfolding h5_def using copy_macAddress_step(2) by blast
  obtain v6 where x6: "ep_objs h6 d = (ep_objs h5 d)\<lparr>o_config := v6\<rparr>"
    unfolding h6_def using copy_config_step(2) by blast
  obtain v7 where x7: "ep_objs h7 d = (ep_objs h6 d)\<lparr>o_containerConfig := v7\<rparr>"
    unfolding h7_def using copy_containerConfig_step(2) by blast
  obtain v8 where x8: "ep_objs h8 d = (ep_objs h7 d)\<lparr>o_portMapping := v8\<rparr>"
    unfolding h8_def using portMapping_step(2) by blast
  have s5: "o_config (ep_objs h5 s) = o_config (ep_objs h s)"
  proof (cases "s = d")
    case True
    then show ?thesis by (simp add: x1 x2 x3 x4 x5)
  next
    case False
    then show ?thesis using e05 by (simp add: extends_def)
  qed
  have s6: "o_containerConfig (ep_objs h6 s) = o_containerConfig (ep_objs h s)"
  proof (cases "s = d")
    case True
    then show ?thesis by (simp add: x1 x2 x3 x4 x5 x6)
  next
    case False
    then show ?thesis using e06 by (simp add: extends_def)
  qed
  have c: "o_config (ep_objs h8 d) = o_config (ep_objs h d)" if "o_config (ep_objs h s) = None"
  proof -
    have "h6 = h5"
      using copy_config_step(4) [of h5 s Z d] that by (simp add: h6_def s5)
    moreover have "o_config (ep_objs h8 d) = o_config (ep_objs h6 d)"
      by (simp add: x7 x8)
    moreover have "o_config (ep_objs h5 d) = o_config (ep_objs h d)"
      by (simp add: x1 x2 x3 x4 x5)
    ultimately show ?thesis by simp
  qed
  have cc: "o_containerConfig (ep_objs h8 d) = o_containerConfig (ep_objs h d)"
    if "o_containerConfig (ep_objs h s) = None"
  proof -
    have "h7 = h6"
      using copy_containerConfig_step(4) [of h6 s d] that by (simp add: h7_def s6)
    moreover have "o_containerConfig (ep_objs h8 d) = o_containerConfig (ep_objs h7 d)"
      by (simp add: x8)
    moreover have "o_containerConfig (ep_objs h6 d) = o_containerConfig (ep_objs h d)"
      by (simp add: x1 x2 x3 x4 x5 x6)
    ultimately show ?thesis by simp
  qed
  from res e08 c cc show ?thesis
    by (intro exI [of _ h8]) simp
qed

lemma same_cells_extends:
  assumes "extends d h h'" "list_all (\<lambda>c. ref_of c < next_ref h) cs" "EpObj d \<notin> set cs"
  shows "list_all (same_cell h h') cs"
  unfolding list_all_iff
proof
  fix c assume c: "c \<in> set cs"
  then have "ref_of c < next_ref h"
    using assms(2) by (simp add: list_all_iff)
  moreover have "c \<noteq> EpObj d"
    using c assms(3) by blast
  ultimately show "same_cell h h' c"
    by (simp add: extends_same_cell [OF assms(1)])
qed

lemma sample_heap_allocated: "allocated sample_heap 1" "allocated sample_heap 0"
  by (simp_all add: allocated_def footprint_def sample_heap_def ipnet_cells_def epc_cells_def
      cc_cells_def slice_cells_def)

lemma sample_shared_heap_allocated: "allocated sample_shared_heap 1" "allocated sample_shared_heap 0"
  by (simp_all add: allocated_def footprint_def sample_shared_heap_def sample_heap_def
      ipnet_cells_def epc_cells_def cc_cells_def slice_cells_def)

subsection \<open>The destination holds the values of the source\<close>

lemma copy_elems_replicate: "copy_elems (replicate (length xs) z) xs = xs"
  by (simp add: copy_elems_def)

lemma copy_elems_Nil: "copy_elems [] [] = []"
  by (simp add: copy_elems_def)

lemma elems_load_slice: "elems (load_slice arr p) = elems_at arr p"
  by (cases p) (simp_all add: elems_def load_slice_def elems_at_def)

lemma GetMacCopy_value:
  assumes "GetMacCopy from h = (m, h')" "list_all (\<lambda>c. ref_of c < next_ref h) (slice_cells ByteArr from)"
  shows "load_slice (byte_arrays h') m = load_slice (byte_arrays h) from"
  using assms
  by (auto simp: GetMacCopy_def new_bytes_def load_slice_def slice_cells_def split: option.splits)

lemma GetIPNetCopy_value:
  assumes "GetIPNetCopy from h = (a, h')" "list_all (\<lambda>c. ref_of c < next_ref h) (ipnet_cells h from)"
  shows "load_ipnet h' a = load_ipnet h from"
  using assms
  by (auto simp: GetIPNetCopy_def GetMacCopy_def new_bytes_def new_ipnet_def load_ipnet_def
      load_slice_def ipnet_cells_def slice_cells_def split: option.splits)

lemma copy_addr_value:
  assumes "list_all (\<lambda>c. ref_of c < next_ref h) (ipnet_cells h (o_addr (ep_objs h s)))"
  shows "load_ipnet (copy_addr s d h) (o_addr (ep_objs (copy_addr s d h) d))
           = load_ipnet h (o_addr (ep_objs h s))"
proof -
  obtain a h' where g: "GetIPNetCopy (o_addr (ep_objs h s)) h = (a, h')"
    by (cases "GetIPNetCopy (o_addr (ep_objs h s)) h") blast
  have "load_ipnet (upd_ep d (\<lambda>x. x\<lparr>o_addr := a\<rparr>) h') a = load_ipnet h' a"
    by (simp add: load_ipnet_def upd_ep_def)
  then show ?thesis
    using GetIPNetCopy_value [OF g assms] by (simp add: copy_addr_def g upd_ep_def)
qed

lemma copy_addrv6_value:
  assumes "list_all (\<lambda>c. ref_of c < next_ref h) (ipnet_cells h (o_addrv6 (ep_objs h s)))"
  shows "load_ipnet (copy_addrv6 s d h) (o_addrv6 (ep_objs (copy_addrv6 s d h) d))
           = load_ipnet h (o_addrv6 (ep_objs h s))"
proof -
  obtain a h' where g: "GetIPNetCopy (o_addrv6 (ep_objs h s)) h = (a, h')"
    by (cases "GetIPNetCopy (o_addrv6 (ep_objs h s)) h") blast
  have "load_ipnet (upd_ep d (\<lambda>x. x\<lparr>o_addrv6 := a\<rparr>) h') a = load_ipnet h' a"
    by (simp add: load_ipnet_def upd_ep_def)
  then show ?thesis
    using GetIPNetCopy_value [OF g assms] by (simp add: copy_addrv6_def g upd_ep_def)
qed

lemma copy_macAddress_value:
  assumes "list_all (\<lambda>c. ref_of c < next_ref h) (slice_cells ByteArr (o_macAddress (ep_objs h s)))"
  shows "load_slice (byte_arrays (copy_macAddress s d h)) (o_macAddress (ep_objs (copy_macAddress s d h) d))
           = load_slice (byte_arrays h) (o_macAddress (ep_objs h s))"
proof -
  obtain a h' where g: "GetMacCopy (o_macAddress (ep_objs h s)) h = (a, h')"
    by (cases "GetMacCopy (o_macAddress (ep_objs h s)) h") blast
  show ?thesis
    using GetMacCopy_value [OF g assms] by (simp add: copy_macAddress_def g upd_ep_def)
qed

lemma portMapping_value:
  assumes "s \<noteq> d"
    "list_all (\<lambda>c. ref_of c < next_ref h) (slice_cells PBArr (o_portMapping (ep_objs h s)))"
  shows "load_slice (pb_arrays (copy_portMapping s d (make_portMapping Z s d h)))
           (o_portMapping (ep_objs (copy_portMapping s d (make_portMapping Z s d h)) d))
         = Some (elems_at (pb_arrays h) (o_portMapping (ep_objs h s)))"
  using assms
  by (auto simp: copy_portMapping_def make_portMapping_def new_pbs_def upd_ep_def load_slice_def
      slice_cells_def elems_at_def len_at_def copy_elems_replicate copy_elems_Nil split: option.splits)

lemma epc_CopyTo_value:
  assumes "p = next_ref h0" "next_ref h = Suc p"
      and "epc_objs h p = \<lparr>o_MacAddress = None, o_PortBindings = None, o_ExposedPorts = None\<rparr>"
      and "list_all (\<lambda>c. ref_of c < p) (epc_cells h (Some epc))"
  shows "load_epc (epc_CopyTo Z epc p h) (Some p) =
           Some \<lparr>MacAddress = load_slice (byte_arrays h) (o_MacAddress (epc_objs h epc)),
                 PortBindings = Some (elems_at (pb_arrays h) (o_PortBindings (epc_objs h epc))),
                 ExposedPorts = Some (elems_at (tp_arrays h) (o_ExposedPorts (epc_objs h epc)))\<rparr>"
  using assms
  by (auto simp: epc_CopyTo_def epc_copy_MacAddress_def epc_make_PortBindings_def
      epc_copy_PortBindings_def epc_make_ExposedPorts_def epc_copy_ExposedPorts_def
      GetMacCopy_def new_bytes_def new_pbs_def new_tps_def upd_epc_def
      load_epc_def load_slice_def epc_cells_def slice_cells_def elems_at_def len_at_def
      copy_elems_replicate copy_elems_Nil split: option.splits)

lemma cc_CopyTo_value:
  assumes "p = next_ref h0" "next_ref h = Suc p"
      and "cc_objs h p = \<lparr>o_ParentEndpoints = None, o_ChildEndpoints = None\<rparr>"
      and "list_all (\<lambda>c. ref_of c < p) (cc_cells h (Some cc))"
  shows "load_cc (cc_CopyTo cc p h) (Some p) =
           Some \<lparr>ParentEndpoints = Some (elems_at (string_arrays h) (o_ParentEndpoints (cc_objs h cc))),
                 ChildEndpoints = Some (elems_at (string_arrays h) (o_ChildEndpoints (cc_objs h cc)))\<rparr>"
  using assms
  by (auto simp: cc_CopyTo_def cc_make_ParentEndpoints_def cc_copy_ParentEndpoints_def
      cc_make_ChildEndpoints_def cc_copy_ChildEndpoints_def new_strings_def upd_cc_def
      load_cc_def load_slice_def cc_cells_def slice_cells_def elems_at_def len_at_def
      copy_elems_replicate copy_elems_Nil split: option.splits)

lemma copy_config_value:
  assumes sd: "s \<noteq> d" and c: "o_config (ep_objs h s) = Some epc"
      and al: "list_all (\<lambda>c. ref_of c < next_ref h) (epc_cells h (Some epc))"
  shows "load_epc (copy_config Z s d h) (o_config (ep_objs (copy_config Z s d h) d)) =
           Some \<lparr>MacAddress = load_slice (byte_arrays h) (o_MacAddress (epc_objs h epc)),
                 PortBindings = Some (elems_at (pb_arrays h) (o_PortBindings (epc_objs h epc))),
                 ExposedPorts = Some (elems_at (tp_arrays h) (o_ExposedPorts (epc_objs h epc)))\<rparr>"
proof -
  let ?p = "next_ref h"
  let ?z = "\<lparr>o_MacAddress = None, o_PortBindings = None, o_ExposedPorts = None\<rparr>"
  let ?h2 = "upd_ep d (\<lambda>x. x\<lparr>o_config := Some ?p\<rparr>) (snd (new_epc ?z h))"
  from al have lt: "epc < ?p"
    by (simp add: epc_cells_def)
  have h2: "next_ref ?h2 = Suc ?p" "epc_objs ?h2 ?p = ?z" "epc_objs ?h2 epc = epc_objs h epc"
    "byte_arrays ?h2 = byte_arrays h" "pb_arrays ?h2 = pb_arrays h" "tp_arrays ?h2 = tp_arrays h"
    "ep_objs ?h2 d = (ep_objs h d)\<lparr>o_config := Some ?p\<rparr>"
    "o_config (ep_objs ?h2 s) = Some epc"
    using lt sd c by (auto simp: new_epc_def upd_ep_def)
  have eq: "copy_config Z s d h = epc_CopyTo Z epc ?p ?h2"
    using c h2(8) by (simp add: copy_config_def new_epc_def Let_def)
  have al2: "list_all (\<lambda>c. ref_of c < ?p) (epc_cells ?h2 (Some epc))"
    using al by (simp add: epc_cells_def h2(3))
  have "o_config (ep_objs (epc_CopyTo Z epc ?p ?h2) d) = Some ?p"
    by (simp add: epc_CopyTo_new(2) [OF refl h2(1) h2(2)] h2(7))
  then show ?thesis
    using epc_CopyTo_value [OF refl h2(1) h2(2) al2, of Z]
    by (simp add: eq h2(3) h2(4) h2(5) h2(6))
qed

lemma copy_containerConfig_value:
  assumes sd: "s \<noteq> d" and c: "o_containerConfig (ep_objs h s) = Some cc"
      and al: "list_all (\<lambda>c. ref_of c < next_ref h) (cc_cells h (Some cc))"
  shows "load_cc (copy_containerConfig s d h) (o_containerConfig (ep_objs (copy_containerConfig s d h) d)) =
           Some \<lparr>ParentEndpoints = Some (elems_at (string_arrays h) (o_ParentEndpoints (cc_objs h cc))),
                 ChildEndpoints = Some (elems_at (string_arrays h) (o_ChildEndpoints (cc_objs h cc)))\<rparr>"
proof -
  let ?p = "next_ref h"
  let ?z = "\<lparr>o_ParentEndpoints = None, o_ChildEndpoints = None\<rparr>"
  let ?h2 = "upd_ep d (\<lambda>x. x\<lparr>o_containerConfig := Some ?p\<rparr>) (snd (new_cc ?z h))"
  from al have lt: "cc < ?p"
    by (simp add: cc_cells_def)
  have h2: "next_ref ?h2 = Suc ?p" "cc_objs ?h2 ?p = ?z" "cc_objs ?h2 cc = cc_objs h cc"
    "string_arrays ?h2 = string_arrays h"
    "ep_objs ?h2 d = (ep_objs h d)\<lparr>o_containerConfig := Some ?p\<rparr>"
    "o_containerConfig (ep_objs ?h2 s) = Some cc"
    using lt sd c by (auto simp: new_cc_def upd_ep_def)
  have eq: "copy_containerConfig s d h = cc_CopyTo cc ?p ?h2"
    using c h2(6) by (simp add: copy_containerConfig_def new_cc_def Let_def)
  have al2: "list_all (\<lambda>c. ref_of c < ?p) (cc_cells ?h2 (Some cc))"
    using al by (simp add: cc_cells_def h2(3))
  have "o_containerConfig (ep_objs (cc_CopyTo cc ?p ?h2) d) = Some ?p"
    by (simp add: cc_CopyTo_new(2) [OF refl h2(1) h2(2)] h2(5))
  then show ?thesis
    using cc_CopyTo_value [OF refl h2(1) h2(2) al2]
    by (simp add: eq h2(3) h2(4))
qed

lemma allocated_extends:
  assumes "extends d h h'" "e \<noteq> d" "allocated h e"
  shows "allocated h' e"
proof -
  have "footprint h' e = footprint h e"
    using assms by (rule footprint_extends)
  moreover have "next_ref h \<le> next_ref h'"
    using assms(1) by (simp add: extends_def)
  ultimately show ?thesis
    using assms(3) by (auto simp: allocated_def list_all_iff)
qed

lemma CopyTo_value:
  assumes sd: "s \<noteq> d" and As: "allocated h s" and Ad: "allocated h d"
  shows "\<exists>h'. CopyTo Z h s (EpPtr (Some d)) = Returns (None, h') \<and>
           load_ep h' d = copied (load_ep h s) (load_ep h d)"
proof -
  define h1 where "h1 = copy_id s d h"
  define h2 where "h2 = copy_srcName s d h1"
  define h3 where "h3 = copy_addr s d h2"
  define h4 where "h4 = copy_addrv6 s d h3"
  define h5 where "h5 = copy_macAddress s d h4"
  define h6 where "h6 = copy_config Z s d h5"
  define h7 where "h7 = copy_containerConfig s d h6"
  define h8 where "h8 = copy_portMapping s d (make_portMapping Z s d h7)"
  have res: "CopyTo Z h s (EpPtr (Some d)) = Returns (None, h8)"
    by (simp add: CopyTo_unfold h1_def h2_def h3_def h4_def h5_def h6_def h7_def h8_def)
  have e1: "extends d h h1" and e2: "extends d h1 h2" and e3: "extends d h2 h3"
    and e4: "extends d h3 h4" and e5: "extends d h4 h5" and e6: "extends d h5 h6"
    and e7: "extends d h6 h7" and e8: "extends d h7 h8"
    unfolding h1_def h2_def h3_def h4_def h5_def h6_def h7_def h8_def
    by (rule copy_id_step copy_srcName_step copy_addr_step copy_addrv6_step copy_macAddress_step
        copy_config_step copy_containerConfig_step portMapping_step)+
  note e78 = e8
  note e68 = extends_trans [OF e7 e78]
  note e58 = extends_trans [OF e6 e68]
  note e48 = extends_trans [OF e5 e58]
  note e38 = extends_trans [OF e4 e48]
  note e01 = e1
  note e02 = extends_trans [OF e1 e2]
  note e03 = extends_trans [OF e02 e3]
  note e04 = extends_trans [OF e03 e4]
  note e05 = extends_trans [OF e04 e5]
  note e06 = extends_trans [OF e05 e6]
  note e07 = extends_trans [OF e06 e7]
  note e08 = extends_trans [OF e07 e8]
  obtain v1 where x1: "ep_objs h1 d = (ep_objs h d)\<lparr>o_id := v1\<rparr>"
    unfolding h1_def using copy_id_step(2) by blast
  obtain v2 where x2: "ep_objs h2 d = (ep_objs h1 d)\<lparr>o_srcName := v2\<rparr>"
    unfolding h2_def using copy_srcName_step(2) by blast
  obtain v3 where x3: "ep_objs h3 d = (ep_objs h2 d)\<lparr>o_addr := v3\<rparr>"
    unfolding h3_def using copy_addr_step(2) by blast
  obtain v4 where x4: "ep_objs h4 d = (ep_objs h3 d)\<lparr>o_addrv6 := v4\<rparr>"
    unfolding h4_def using copy_addrv6_step(2) by blast
  obtain v5 where x5: "ep_objs h5 d = (ep_objs h4 d)\<lparr>o_macAddress := v5\<rparr>"
    unfolding h5_def using copy_macAddress_step(2) by blast
  obtain v6 where x6: "ep_objs h6 d = (ep_objs h5 d)\<lparr>o_config := v6\<rparr>"
    unfolding h6_def using copy_config_step(2) by blast
  obtain v7 where x7: "ep_objs h7 d = (ep_objs h6 d)\<lparr>o_containerConfig := v7\<rparr>"
    unfolding h7_def using copy_containerConfig_step(2) by blast
  obtain v8 where x8: "ep_objs h8 d = (ep_objs h7 d)\<lparr>o_portMapping := v8\<rparr>"
    unfolding h8_def using portMapping_step(2) by blast
  note xs = x1 x2 x3 x4 x5 x6 x7 x8
  \<comment> \<open>the source is the same at every statement\<close>
  have src: "ep_objs h' s = ep_objs h s \<and> allocated h' s \<and> load_ep h' s = load_ep h s"
    if "extends d h h'" for h'
    using that sd As
    by (simp add: allocated_extends load_ep_extends) (simp add: extends_def)
  note s1 = src [OF e01] and s2 = src [OF e02] and s3 = src [OF e03] and s4 = src [OF e04]
    and s5 = src [OF e05] and s6 = src [OF e06] and s7 = src [OF e07]
  \<comment> \<open>identifier and source name\<close>
  have "o_id (ep_objs h1 d) = o_id (ep_objs h s)"
    by (simp add: h1_def copy_id_def upd_ep_def)
  then have f_id: "ep_id (load_ep h8 d) = ep_id (load_ep h s)"
    by (simp add: load_ep_def x2 x3 x4 x5 x6 x7 x8)
  have "o_srcName (ep_objs h2 d) = o_srcName (ep_objs h1 s)"
    by (simp add: h2_def copy_srcName_def upd_ep_def)
  then have f_src: "srcName (load_ep h8 d) = srcName (load_ep h s)"
    using s1 by (simp add: load_ep_def x3 x4 x5 x6 x7 x8)
  \<comment> \<open>the address\<close>
  have "fresh_in (next_ref h2) h3 (ipnet_cells h3 v3)"
    using copy_addr_step(3) [of h2 s d] by (simp add: h3_def [symmetric] x3)
  then have "list_all (same_cell h3 h8) (ipnet_cells h3 v3)"
    by (intro same_cells_extends [OF e38] fresh_in_allocated EpObj_notin_parts)
  then have "load_ipnet h8 v3 = load_ipnet h3 v3"
    by (rule load_ipnet_same)
  moreover have "load_ipnet h3 (o_addr (ep_objs h3 d)) = load_ipnet h2 (o_addr (ep_objs h2 s))"
    unfolding h3_def using s2 by (intro copy_addr_value allocated_parts) simp
  moreover have "load_ipnet h2 (o_addr (ep_objs h2 s)) = addr (load_ep h2 s)"
    by (simp add: load_ep_def)
  ultimately have f_addr: "addr (load_ep h8 d) = addr (load_ep h s)"
    using s2 by (simp add: load_ep_def [of h8] x3 x4 x5 x6 x7 x8)
  \<comment> \<open>the IPv6 address\<close>
  have "fresh_in (next_ref h3) h4 (ipnet_cells h4 v4)"
    using copy_addrv6_step(3) [of h3 s d] by (simp add: h4_def [symmetric] x4)
  then have "list_all (same_cell h4 h8) (ipnet_cells h4 v4)"
    by (intro same_cells_extends [OF e48] fresh_in_allocated EpObj_notin_parts)
  then have "load_ipnet h8 v4 = load_ipnet h4 v4"
    by (rule load_ipnet_same)
  moreover have "load_ipnet h4 (o_addrv6 (ep_objs h4 d)) = load_ipnet h3 (o_addrv6 (ep_objs h3 s))"
    unfolding h4_def using s3 by (intro copy_addrv6_value allocated_parts) simp
  moreover have "load_ipnet h3 (o_addrv6 (ep_objs h3 s)) = addrv6 (load_ep h3 s)"
    by (simp add: load_ep_def)
  ultimately have f_addrv6: "addrv6 (load_ep h8 d) = addrv6 (load_ep h s)"
    using s3 by (simp add: load_ep_def [of h8] x4 x5 x6 x7 x8)
  \<comment> \<open>the hardware address\<close>
  have "fresh_in (next_ref h4) h5 (slice_cells ByteArr v5)"
    using copy_macAddress_step(3) [of h4 s d] by (simp add: h5_def [symmetric] x5)
  then have "list_all (same_cell h5 h8) (slice_cells ByteArr v5)"
    by (intro same_cells_extends [OF e58] fresh_in_allocated EpObj_notin_slice)
  then have "load_slice (byte_arrays h8) v5 = load_slice (byte_arrays h5) v5"
    by (rule load_slice_bytes_same)
  moreover have "load_slice (byte_arrays h5) (o_macAddress (ep_objs h5 d))
      = load_slice (byte_arrays h4) (o_macAddress (ep_objs h4 s))"
    unfolding h5_def using s4 by (intro copy_macAddress_value allocated_parts) simp
  moreover have "load_slice (byte_arrays h4) (o_macAddress (ep_objs h4 s)) = macAddress (load_ep h4 s)"
    by (simp add: load_ep_def)
  ultimately have f_mac: "macAddress (load_ep h8 d) = macAddress (load_ep h s)"
    using s4 by (simp add: load_ep_def [of h8] x5 x6 x7 x8)
  \<comment> \<open>the port mappings\<close>
  have "load_slice (pb_arrays h8) (o_portMapping (ep_objs h8 d))
      = Some (elems_at (pb_arrays h7) (o_portMapping (ep_objs h7 s)))"
    unfolding h8_def using s7 by (intro portMapping_value sd allocated_parts) simp
  moreover have "elems_at (pb_arrays h7) (o_portMapping (ep_objs h7 s)) = elems (portMapping (load_ep h7 s))"
    by (simp add: load_ep_def elems_load_slice)
  ultimately have f_pm: "portMapping (load_ep h8 d) = Some (elems (portMapping (load_ep h s)))"
    using s7 by (simp add: load_ep_def [of h8])
  \<comment> \<open>the endpoint configuration\<close>
  have f_config: "config (load_ep h8 d) =
      (case config (load_ep h s) of None \<Rightarrow> config (load_ep h d) | Some c \<Rightarrow> Some (ec_copy c))"
  proof (cases "o_config (ep_objs h s)")
    case None
    then have "h6 = h5"
      using copy_config_step(4) [of h5 s Z d] s5 by (simp add: h6_def)
    moreover have "o_config (ep_objs h6 d) = v6"
      by (simp add: x6)
    moreover have "o_config (ep_objs h5 d) = o_config (ep_objs h d)"
      by (simp add: x1 x2 x3 x4 x5)
    ultimately have v6: "v6 = o_config (ep_objs h d)"
      by simp
    have "list_all (same_cell h h8) (epc_cells h v6)"
      unfolding v6 by (intro same_cells_extends [OF e08] allocated_parts Ad EpObj_notin_parts)
    then have "load_epc h8 v6 = load_epc h v6"
      by (rule load_epc_same)
    then show ?thesis
      using None by (simp add: load_ep_def load_epc_def x7 x8 x6 v6)
  next
    case (Some epc)
    then have c5: "o_config (ep_objs h5 s) = Some epc"
      using s5 by simp
    have al: "list_all (\<lambda>c. ref_of c < next_ref h5) (epc_cells h5 (Some epc))"
      using allocated_parts(1) [of h5 s] s5 c5 by simp
    have "fresh_in (next_ref h5) h6 (epc_cells h6 v6)"
      using copy_config_step(3) [of h5 s Z d] c5 by (simp add: h6_def [symmetric] x6)
    then have "list_all (same_cell h6 h8) (epc_cells h6 v6)"
      by (intro same_cells_extends [OF e68] fresh_in_allocated EpObj_notin_parts)
    then have "load_epc h8 v6 = load_epc h6 v6"
      by (rule load_epc_same)
    moreover have "load_epc h6 (o_config (ep_objs h6 d)) = map_option ec_copy (config (load_ep h5 s))"
      unfolding h6_def copy_config_value [OF sd c5 al]
      by (simp add: load_ep_def load_epc_def c5 ec_copy_def elems_load_slice)
    ultimately have "config (load_ep h8 d) = map_option ec_copy (config (load_ep h s))"
      using s5 by (simp add: load_ep_def [of h8] x6 x7 x8)
    moreover have "config (load_ep h s) \<noteq> None"
      using Some by (simp add: load_ep_def load_epc_def)
    ultimately show ?thesis
      by (auto split: option.splits)
  qed
  \<comment> \<open>the container configuration\<close>
  have f_cc: "containerConfig (load_ep h8 d) =
      (case containerConfig (load_ep h s) of
         None \<Rightarrow> containerConfig (load_ep h d) | Some c \<Rightarrow> Some (cc_copy c))"
  proof (cases "o_containerConfig (ep_objs h s)")
    case None
    then have "h7 = h6"
      using copy_containerConfig_step(4) [of h6 s d] s6 by (simp add: h7_def)
    moreover have "o_containerConfig (ep_objs h7 d) = v7"
      by (simp add: x7)
    moreover have "o_containerConfig (ep_objs h6 d) = o_containerConfig (ep_objs h d)"
      by (simp add: x1 x2 x3 x4 x5 x6)
    ultimately have v7: "v7 = o_containerConfig (ep_objs h d)"
      by simp
    have "list_all (same_cell h h8) (cc_cells h v7)"
      unfolding v7 by (intro same_cells_extends [OF e08] allocated_parts Ad EpObj_notin_parts)
    then have "load_cc h8 v7 = load_cc h v7"
      by (rule load_cc_same)
    then show ?thesis
      using None by (simp add: load_ep_def load_cc_def x7 x8 v7)
  next
    case (Some cc)
    then have c6: "o_containerConfig (ep_objs h6 s) = Some cc"
      using s6 by simp
    have al: "list_all (\<lambda>c. ref_of c < next_ref h6) (cc_cells h6 (Some cc))"
      using allocated_parts(2) [of h6 s] s6 c6 by simp
    have "fresh_in (next_ref h6) h7 (cc_cells h7 v7)"
      using copy_containerConfig_step(3) [of h6 s d] c6 by (simp add: h7_def [symmetric] x7)
    then have "list_all (same_cell h7 h8) (cc_cells h7 v7)"
      by (intro same_cells_extends [OF e78] fresh_in_allocated EpObj_notin_parts)
    then have "load_cc h8 v7 = load_cc h7 v7"
      by (rule load_cc_same)
    moreover have "load_cc h7 (o_containerConfig (ep_objs h7 d))
        = map_option cc_copy (containerConfig (load_ep h6 s))"
      unfolding h7_def copy_containerConfig_value [OF sd c6 al]
      by (simp add: load_ep_def load_cc_def c6 cc_copy_def elems_load_slice)
    ultimately have "containerConfig (load_ep h8 d) = map_option cc_copy (containerConfig (load_ep h s))"
      using s6 by (simp add: load_ep_def [of h8] x7 x8)
    moreover have "containerConfig (load_ep h s) \<noteq> None"
      using Some by (simp add: load_ep_def load_cc_def)
    ultimately show ?thesis
      by (auto split: option.splits)
  qed
  \<comment> \<open>what CopyTo does not assign\<close>
  have f_rest: "network (load_ep h8 d) = network (load_ep h d)"
    "dbIndex (load_ep h8 d) = dbIndex (load_ep h d)"
    "dbExists (load_ep h8 d) = dbExists (load_ep h d)"
    by (simp_all add: load_ep_def xs)
  have "load_ep h8 d = copied (load_ep h s) (load_ep h d)"
    by (rule bridgeEndpoint.equality)
       (simp_all add: copied_def f_id f_src f_addr f_addrv6 f_mac f_pm f_config f_cc f_rest)
  with res show ?thesis
    by (intro exI [of _ h8]) simp
qed

subsection \<open>The destination keeps a sub-configuration that the source lacks\<close>

text \<open>
  Claim C10. \<^verbatim>\<open>CopyTo\<close> into an endpoint always returns. When the \<open>config\<close> of the
  source is nil, the \<open>config\<close> pointer of the destination after the call is the one
  before the call: it is not set to nil; and (the destination's storage being
  allocated storage) the configuration read through it is the one read before the
  call, so a destination that had a configuration still has it. The same holds of
  \<open>containerConfig\<close>.
\<close>

theorem CopyTo_keeps_sub_configuration:
  "\<exists>h'. CopyTo Z h ep (EpPtr (Some dstEp)) = Returns (None, h') \<and>
     (o_config (ep_objs h ep) = None \<longrightarrow>
        o_config (ep_objs h' dstEp) = o_config (ep_objs h dstEp) \<and>
        (allocated h dstEp \<longrightarrow> config (load_ep h' dstEp) = config (load_ep h dstEp))) \<and>
     (o_containerConfig (ep_objs h ep) = None \<longrightarrow>
        o_containerConfig (ep_objs h' dstEp) = o_containerConfig (ep_objs h dstEp) \<and>
        (allocated h dstEp \<longrightarrow>
           containerConfig (load_ep h' dstEp) = containerConfig (load_ep h dstEp)))"
proof -
  obtain h' where res: "CopyTo Z h ep (EpPtr (Some dstEp)) = Returns (None, h')"
    and ext: "extends dstEp h h'"
    and c: "o_config (ep_objs h ep) = None \<longrightarrow>
              o_config (ep_objs h' dstEp) = o_config (ep_objs h dstEp)"
    and cc: "o_containerConfig (ep_objs h ep) = None \<longrightarrow>
              o_containerConfig (ep_objs h' dstEp) = o_containerConfig (ep_objs h dstEp)"
    using CopyTo_kept [of Z h ep dstEp] by (elim exE conjE) (rule that)
  have lc: "load_epc h' p = load_epc h p"
    if "allocated h dstEp" "p = o_config (ep_objs h dstEp)" for p
    using that
    by (intro load_epc_same same_cells_extends [OF ext])
       (simp_all add: allocated_parts(1) EpObj_notin_parts)
  have lcc: "load_cc h' p = load_cc h p"
    if "allocated h dstEp" "p = o_containerConfig (ep_objs h dstEp)" for p
    using that
    by (intro load_cc_same same_cells_extends [OF ext])
       (simp_all add: allocated_parts(2) EpObj_notin_parts)
  from res c cc lc lcc show ?thesis
    by (auto simp: load_ep_def)
qed

theorem CopyTo_keeps_sub_configuration_witness:
  "(\<exists>h'. CopyTo sample_zeros sample_heap 1 (EpPtr (Some 0)) = Returns (None, h') \<and>
      o_config (ep_objs h' 0) = Some 6 \<and>
      config (load_ep h' 0) =
        Some \<lparr>MacAddress = Some sample_mac, PortBindings = Some [''10.0.0.9:53/udp:53''],
              ExposedPorts = None\<rparr>) \<and>
   (\<exists>h'. CopyTo sample_zeros sample_heap 0 (EpPtr (Some 1)) = Returns (None, h') \<and>
      o_containerConfig (ep_objs h' 1) = Some 9 \<and>
      containerConfig (load_ep h' 1) =
        Some \<lparr>ParentEndpoints = Some [''p1''], ChildEndpoints = Some [''c1'']\<rparr>)"
proof
  have n: "o_config (ep_objs sample_heap 1) = None"
    by (simp add: sample_heap_def)
  have o: "o_config (ep_objs sample_heap 0) = Some 6"
    by (simp add: sample_heap_def)
  have v: "config (load_ep sample_heap 0) =
        Some \<lparr>MacAddress = Some sample_mac, PortBindings = Some [''10.0.0.9:53/udp:53''],
              ExposedPorts = None\<rparr>"
    by (simp add: load_ep_def load_epc_def load_slice_def sample_heap_def)
  from CopyTo_keeps_sub_configuration [of sample_zeros sample_heap 1 0]
  obtain h' where r: "CopyTo sample_zeros sample_heap 1 (EpPtr (Some 0)) = Returns (None, h')"
    and k: "o_config (ep_objs sample_heap 1) = None \<longrightarrow>
              o_config (ep_objs h' 0) = o_config (ep_objs sample_heap 0) \<and>
              (allocated sample_heap 0 \<longrightarrow> config (load_ep h' 0) = config (load_ep sample_heap 0))"
    by (elim exE conjE) (rule that)
  from k n sample_heap_allocated(2)
  have "o_config (ep_objs h' 0) = Some 6 \<and> config (load_ep h' 0) = config (load_ep sample_heap 0)"
    unfolding o by blast
  with r v
  show "\<exists>h'. CopyTo sample_zeros sample_heap 1 (EpPtr (Some 0)) = Returns (None, h') \<and>
      o_config (ep_objs h' 0) = Some 6 \<and>
      config (load_ep h' 0) =
        Some \<lparr>MacAddress = Some sample_mac, PortBindings = Some [''10.0.0.9:53/udp:53''],
              ExposedPorts = None\<rparr>"
    by (intro exI [of _ h']) simp
next
  have n: "o_containerConfig (ep_objs sample_heap 0) = None"
    by (simp add: sample_heap_def)
  have o: "o_containerConfig (ep_objs sample_heap 1) = Some 9"
    by (simp add: sample_heap_def)
  have v: "containerConfig (load_ep sample_heap 1) =
        Some \<lparr>ParentEndpoints = Some [''p1''], ChildEndpoints = Some [''c1'']\<rparr>"
    by (simp add: load_ep_def load_cc_def load_slice_def sample_heap_def)
  from CopyTo_keeps_sub_configuration [of sample_zeros sample_heap 0 1]
  obtain h' where r: "CopyTo sample_zeros sample_heap 0 (EpPtr (Some 1)) = Returns (None, h')"
    and k: "o_containerConfig (ep_objs sample_heap 0) = None \<longrightarrow>
              o_containerConfig (ep_objs h' 1) = o_containerConfig (ep_objs sample_heap 1) \<and>
              (allocated sample_heap 1 \<longrightarrow>
                 containerConfig (load_ep h' 1) = containerConfig (load_ep sample_heap 1))"
    by (elim exE conjE) (rule that)
  from k n sample_heap_allocated(1)
  have "o_containerConfig (ep_objs h' 1) = Some 9 \<and>
        containerConfig (load_ep h' 1) = containerConfig (load_ep sample_heap 1)"
    unfolding o by blast
  with r v
  show "\<exists>h'. CopyTo sample_zeros sample_heap 0 (EpPtr (Some 1)) = Returns (None, h') \<and>
      o_containerConfig (ep_objs h' 1) = Some 9 \<and>
      containerConfig (load_ep h' 1) =
        Some \<lparr>ParentEndpoints = Some [''p1''], ChildEndpoints = Some [''c1'']\<rparr>"
    by (intro exI [of _ h']) simp
qed

subsection \<open>Source and destination share no storage\<close>

text \<open>
  Claim C7, as amended. Let the source and the destination be different endpoints
  whose storage is allocated storage, and let the sub-configurations that the
  destination keeps (its \<open>config\<close> when the source has none, its \<open>containerConfig\<close>
  when the source has none) share no cell with the source before the call. Then
  \<^verbatim>\<open>CopyTo\<close> returns, and after it: the source reads as before; the destination reads
  as the copy of the source; every cell of the destination's storage is its own
  object, a cell allocated by the call, or a cell of a sub-configuration it has kept;
  the storage of the source and the storage of the destination have no cell in common;
  whatever is written to the storage of the destination leaves every field read
  through the source as it is, and whatever is written to the storage of the source
  leaves every field read through the destination as it is. The storage of an
  endpoint is its object, its two addresses with their byte arrays, the bytes of its
  hardware address, the backing array of its port mappings, and its two
  sub-configuration objects with the backing arrays of their lists.
\<close>

theorem CopyTo_shares_no_storage:
  assumes sd: "ep \<noteq> dstEp" and As: "allocated h ep" and Ad: "allocated h dstEp"
      and kept: "set (kept_cells h ep dstEp) \<inter> set (footprint h ep) = {}"
  shows "\<exists>h'. CopyTo Z h ep (EpPtr (Some dstEp)) = Returns (None, h') \<and>
           load_ep h' ep = load_ep h ep \<and>
           load_ep h' dstEp = copied (load_ep h ep) (load_ep h dstEp) \<and>
           (\<forall>c\<in>set (footprint h' dstEp).
              c = EpObj dstEp \<or> next_ref h \<le> ref_of c \<or> c \<in> set (kept_cells h ep dstEp)) \<and>
           set (footprint h' ep) \<inter> set (footprint h' dstEp) = {} \<and>
           (\<forall>h2. mutated_within (footprint h' dstEp) h' h2 \<longrightarrow> load_ep h2 ep = load_ep h' ep) \<and>
           (\<forall>h2. mutated_within (footprint h' ep) h' h2 \<longrightarrow> load_ep h2 dstEp = load_ep h' dstEp)"
proof -
  obtain h' where res: "CopyTo Z h ep (EpPtr (Some dstEp)) = Returns (None, h')"
    and ext: "extends dstEp h h'"
    and new: "\<forall>c\<in>set (footprint h' dstEp).
                c = EpObj dstEp \<or> next_ref h \<le> ref_of c \<or> c \<in> set (kept_cells h ep dstEp)"
    using CopyTo_heap [OF sd As Ad] by blast
  obtain h'' where res': "CopyTo Z h ep (EpPtr (Some dstEp)) = Returns (None, h'')"
    and cp': "load_ep h'' dstEp = copied (load_ep h ep) (load_ep h dstEp)"
    using CopyTo_value [OF sd As Ad, of Z] by (elim exE conjE) (rule that)
  from res res' have "h'' = h'"
    by simp
  with cp' have cp: "load_ep h' dstEp = copied (load_ep h ep) (load_ep h dstEp)"
    by simp
  have fp: "footprint h' ep = footprint h ep"
    using ext sd As by (rule footprint_extends)
  have val: "load_ep h' ep = load_ep h ep"
    using ext sd As by (rule load_ep_extends)
  have disj: "set (footprint h' ep) \<inter> set (footprint h' dstEp) = {}"
  proof (rule ccontr)
    assume "set (footprint h' ep) \<inter> set (footprint h' dstEp) \<noteq> {}"
    then obtain c where c: "c \<in> set (footprint h ep)" and c': "c \<in> set (footprint h' dstEp)"
      unfolding fp by blast
    have old: "ref_of c < next_ref h"
      using c As by (simp add: allocated_def list_all_iff)
    have "c \<noteq> EpObj dstEp"
      using c sd by (auto simp: EpObj_in_footprint)
    moreover have "c \<notin> set (kept_cells h ep dstEp)"
      using c kept by blast
    ultimately show False
      using new c' old by fastforce
  qed
  have m1: "load_ep h2 ep = load_ep h' ep" if "mutated_within (footprint h' dstEp) h' h2" for h2
    using that disj by (intro load_ep_mutated) auto
  have m2: "load_ep h2 dstEp = load_ep h' dstEp" if "mutated_within (footprint h' ep) h' h2" for h2
    using that disj by (intro load_ep_mutated) auto
  from res val cp new disj m1 m2 show ?thesis
    by (intro exI [of _ h']) simp
qed

theorem CopyTo_shares_no_storage_witness:
  "\<exists>h'. CopyTo sample_zeros sample_heap 1 (EpPtr (Some 0)) = Returns (None, h') \<and>
     load_ep h' 1 = load_ep sample_heap 1 \<and>
     load_ep h' 0 = copied (load_ep sample_heap 1) (load_ep sample_heap 0) \<and>
     (\<forall>c\<in>set (footprint h' 0).
        c = EpObj 0 \<or> next_ref sample_heap \<le> ref_of c \<or> c \<in> set (kept_cells sample_heap 1 0)) \<and>
     set (footprint h' 1) \<inter> set (footprint h' 0) = {} \<and>
     (\<forall>h2. mutated_within (footprint h' 0) h' h2 \<longrightarrow> load_ep h2 1 = load_ep h' 1) \<and>
     (\<forall>h2. mutated_within (footprint h' 1) h' h2 \<longrightarrow> load_ep h2 0 = load_ep h' 0)"
proof -
  have sd: "(1::ref) \<noteq> 0"
    by simp
  have kept: "set (kept_cells sample_heap 1 0) \<inter> set (footprint sample_heap 1) = {}"
    by (simp add: kept_cells_def footprint_def sample_heap_def ipnet_cells_def epc_cells_def
        cc_cells_def slice_cells_def)
  show ?thesis
    by (rule CopyTo_shares_no_storage [OF sd sample_heap_allocated kept])
qed

text \<open>
  The claim as stated fails for a destination that comes with a configuration of
  its own: here the source has no configuration, so the destination keeps its own,
  whose port bindings are the backing array of the source's port mappings. After
  \<^verbatim>\<open>CopyTo\<close> that array is storage of both, and emptying it, a write to the
  destination's sub-configuration list, changes the port mappings of the source.
\<close>

theorem CopyTo_shares_no_storage_counterexample:
  "\<exists>h'. CopyTo sample_zeros sample_shared_heap 1 (EpPtr (Some 0)) = Returns (None, h') \<and>
     PBArr 12 \<in> set (footprint h' 1) \<inter> set (footprint h' 0) \<and>
     mutated_within (footprint h' 0) h' (h'\<lparr>pb_arrays := (pb_arrays h')(12 := [])\<rparr>) \<and>
     portMapping (load_ep (h'\<lparr>pb_arrays := (pb_arrays h')(12 := [])\<rparr>) 1)
       \<noteq> portMapping (load_ep h' 1)"
proof -
  let ?h = "sample_shared_heap"
  have sd: "(1::ref) \<noteq> 0"
    by simp
  obtain h' where res: "CopyTo sample_zeros ?h 1 (EpPtr (Some 0)) = Returns (None, h')"
    and ext: "extends 0 ?h h'"
    and c: "o_config (ep_objs ?h 1) = None \<longrightarrow> o_config (ep_objs h' 0) = o_config (ep_objs ?h 0)"
    using CopyTo_kept [of sample_zeros ?h 1 0] by (elim exE conjE) (rule that)
  have fp1: "footprint h' 1 = footprint ?h 1"
    using ext sd sample_shared_heap_allocated(1) by (rule footprint_extends)
  have in1: "PBArr 12 \<in> set (footprint h' 1)"
    unfolding fp1 by (simp add: footprint_def sample_shared_heap_def sample_heap_def slice_cells_def)
  have cfg: "o_config (ep_objs h' 0) = Some 6"
    using c by (simp add: sample_shared_heap_def sample_heap_def)
  have "epc_objs h' 6 = epc_objs ?h 6"
    using ext by (simp add: extends_def sample_shared_heap_def sample_heap_def)
  then have "o_PortBindings (epc_objs h' 6) = Some 12"
    by (simp add: sample_shared_heap_def sample_heap_def)
  then have in0: "PBArr 12 \<in> set (footprint h' 0)"
    by (simp add: footprint_def cfg epc_cells_def slice_cells_def)
  let ?h2 = "h'\<lparr>pb_arrays := (pb_arrays h')(12 := [])\<rparr>"
  have mut: "mutated_within (footprint h' 0) h' ?h2"
    unfolding mutated_within_def
  proof
    fix c show "c \<in> set (footprint h' 0) \<or> same_cell h' ?h2 c"
      using in0 by (cases c) auto
  qed
  have "load_ep h' 1 = load_ep ?h 1"
    using ext sd sample_shared_heap_allocated(1) by (rule load_ep_extends)
  then have old: "portMapping (load_ep h' 1) = Some [''172.17.0.2:80/tcp:80'']"
    by (simp add: load_ep_def load_slice_def sample_shared_heap_def sample_heap_def)
  have "ep_objs h' 1 = ep_objs ?h 1"
    using ext by (simp add: extends_def)
  then have new: "portMapping (load_ep ?h2 1) = Some []"
    by (simp add: load_ep_def load_slice_def sample_shared_heap_def sample_heap_def)
  from res in1 in0 mut old new show ?thesis
    by (intro exI [of _ h']) simp
qed

end
